theory Spec2Isabelle
  imports Main
begin

section \<open>Strings, characters and exceptions\<close>

text \<open>
  A Python \<open>str\<close> is modelled as a \<open>string\<close>: a list of characters, each standing for
  the code point of the same number (0 to 255, the Latin-1 range). The character
  classes used by the program are given on this range:
  \<^item> \<open>str.isdigit\<close> holds for the ASCII digits and for the superscript digits
    U+00B2, U+00B3 and U+00B9;
  \<^item> the regular expression class \<open>\d\<close> (Unicode category Nd) holds for the ASCII
    digits only;
  \<^item> \<open>str.isspace\<close> holds for U+0009 to U+000D, U+001C to U+0020, U+0085 and U+00A0.
\<close>

datatype exn =
    ValueError string
  | KeyError string
  | IndexError string
  | OtherException string

definition char_range :: "char \<Rightarrow> char \<Rightarrow> char \<Rightarrow> bool" where
  \<comment> \<open>the regular expression class \<open>[lo-hi]\<close>\<close>
  "char_range lo hi c \<longleftrightarrow> (of_char lo :: nat) \<le> of_char c \<and> (of_char c :: nat) \<le> of_char hi"

definition isdigit_char :: "char \<Rightarrow> bool" where
  "isdigit_char c \<longleftrightarrow>
     char_range (CHR ''0'') (CHR ''9'') c \<or> c = CHR 0xB2 \<or> c = CHR 0xB3 \<or> c = CHR 0xB9"

definition isdigit :: "string \<Rightarrow> bool" where
  \<comment> \<open>\<open>str.isdigit\<close>: at least one character, and all of them digits\<close>
  "isdigit s \<longleftrightarrow> s \<noteq> [] \<and> list_all isdigit_char s"

definition isspace_char :: "char \<Rightarrow> bool" where
  "isspace_char c \<longleftrightarrow>
     char_range (CHR 0x09) (CHR 0x0D) c \<or> char_range (CHR 0x1C) (CHR 0x20) c
     \<or> c = CHR 0x85 \<or> c = CHR 0xA0"

definition strip :: "string \<Rightarrow> string" where
  \<comment> \<open>\<open>str.strip()\<close>\<close>
  "strip s = rev (dropWhile isspace_char (rev (dropWhile isspace_char s)))"

fun join :: "string \<Rightarrow> string list \<Rightarrow> string" where
  "join sep [] = []"
| "join sep [x] = x"
| "join sep (x # y # ys) = x @ sep @ join sep (y # ys)"

fun startswith :: "string \<Rightarrow> string \<Rightarrow> bool" where
  "startswith s [] = True"
| "startswith [] (p # ps) = False"
| "startswith (c # s) (p # ps) = (c = p \<and> startswith s ps)"

fun contains :: "string \<Rightarrow> string \<Rightarrow> bool" where
  \<comment> \<open>\<open>sub in s\<close>\<close>
  "contains [] sub = (sub = [])"
| "contains (c # s) sub = (startswith (c # s) sub \<or> contains s sub)"

definition digit_char :: "nat \<Rightarrow> char" where
  "digit_char n = char_of (48 + n)"

definition digit_val :: "char \<Rightarrow> nat" where
  "digit_val c = of_char c - 48"

definition re_digit :: "char \<Rightarrow> bool" where
  \<comment> \<open>the regular expression class \<open>\d\<close>: the decimal digits, which on this range are the
      ASCII digits; \<open>digit_val\<close> is the number such a digit stands for\<close>
  "re_digit c \<longleftrightarrow> char_range (CHR ''0'') (CHR ''9'') c"

fun str_nat :: "nat \<Rightarrow> string" where
  \<comment> \<open>\<open>str(n)\<close> of a non-negative integer\<close>
  "str_nat n = (if n < 10 then [digit_char n] else str_nat (n div 10) @ [digit_char (n mod 10)])"

declare str_nat.simps [simp del]

section \<open>Validated fields\<close>

subsection \<open>Phone\<close>

text \<open>
  \<open>Phone(value)\<close> raises \<open>ValueError\<close> unless \<open>value.isdigit()\<close> and
  \<open>len(value) == 10\<close>; otherwise the object stores \<open>value\<close>. A Phone object is
  modelled by its \<open>value\<close>.
\<close>

definition Phone :: "string \<Rightarrow> exn + string" where
  "Phone v =
     (if \<not> isdigit v \<or> length v \<noteq> 10 then Inl (ValueError ''Phone must be 10 digits.'')
      else Inr v)"

subsection \<open>Calendar dates\<close>

text \<open>
  \<open>datetime.date\<close>: the constructor accepts a year from 1 to 9999, a month from 1 to 12
  and a day of that month, and raises \<open>ValueError\<close> otherwise (the message texts are
  those of CPython's implementation). Dates compare as the triples (year, month, day);
  the difference of two dates in days is the difference of their proleptic Gregorian
  ordinals.
\<close>

record date =
  year :: nat
  month :: nat
  day :: nat

definition is_leap :: "nat \<Rightarrow> bool" where
  "is_leap y \<longleftrightarrow> y mod 4 = 0 \<and> (y mod 100 \<noteq> 0 \<or> y mod 400 = 0)"

definition days_in_month :: "nat \<Rightarrow> nat \<Rightarrow> nat" where
  "days_in_month y m =
     (if m = 2 then (if is_leap y then 29 else 28)
      else if m = 4 \<or> m = 6 \<or> m = 9 \<or> m = 11 then 30 else 31)"

definition valid_date :: "date \<Rightarrow> bool" where
  "valid_date d \<longleftrightarrow>
     1 \<le> year d \<and> year d \<le> 9999 \<and> 1 \<le> month d \<and> month d \<le> 12 \<and>
     1 \<le> day d \<and> day d \<le> days_in_month (year d) (month d)"

definition mk_date :: "nat \<Rightarrow> nat \<Rightarrow> nat \<Rightarrow> exn + date" where
  \<comment> \<open>\<open>date(y, m, d)\<close>\<close>
  "mk_date y m d =
     (if \<not> (1 \<le> y \<and> y \<le> 9999) then
        Inl (ValueError (''year '' @ str_nat y @ '' is out of range''))
      else if \<not> (1 \<le> m \<and> m \<le> 12) then Inl (ValueError ''month must be in 1..12'')
      else if \<not> (1 \<le> d \<and> d \<le> days_in_month y m) then
        Inl (ValueError ''day is out of range for month'')
      else Inr \<lparr>year = y, month = m, day = d\<rparr>)"

definition replace_year :: "date \<Rightarrow> nat \<Rightarrow> exn + date" where
  \<comment> \<open>\<open>d.replace(year=y)\<close>\<close>
  "replace_year d y = mk_date y (month d) (day d)"

definition date_lt :: "date \<Rightarrow> date \<Rightarrow> bool" where
  "date_lt a b \<longleftrightarrow>
     year a < year b \<or> (year a = year b \<and> (month a < month b \<or> (month a = month b \<and> day a < day b)))"

definition date_le :: "date \<Rightarrow> date \<Rightarrow> bool" where
  "date_le a b \<longleftrightarrow> \<not> date_lt b a"

definition days_before_year :: "nat \<Rightarrow> int" where
  "days_before_year y =
     (let z = int y - 1 in z * 365 + z div 4 - z div 100 + z div 400)"

definition days_before_month :: "nat \<Rightarrow> nat \<Rightarrow> int" where
  "days_before_month y m =
     int (sum_list (map (days_in_month 1) [1..<m])) + (if 2 < m \<and> is_leap y then 1 else 0)"

definition toordinal :: "date \<Rightarrow> int" where
  "toordinal d = days_before_year (year d) + days_before_month (year d) (month d) + int (day d)"

definition days_between :: "date \<Rightarrow> date \<Rightarrow> int" where
  \<comment> \<open>\<open>(a - b).days\<close>\<close>
  "days_between a b = toordinal a - toordinal b"

definition pad2 :: "nat \<Rightarrow> string" where
  "pad2 n = [digit_char (n div 10), digit_char (n mod 10)]"

definition strftime :: "date \<Rightarrow> string" where
  \<comment> \<open>\<open>d.strftime("%d.%m.%Y")\<close>: day and month zero-padded to two digits, and the year
      as the C library prints it: in decimal with no padding (glibc), so with four
      digits from the year 1000 on and with fewer before\<close>
  "strftime d = pad2 (day d) @ ''.'' @ pad2 (month d) @ ''.'' @ str_nat (year d)"

subsection \<open>Parsing a date\<close>

text \<open>
  \<open>datetime.strptime(value, "%d.%m.%Y")\<close> matches the text, from its start, against
  the regular expression
  \<^verbatim>\<open>(?P<d>3[0-1]|[1-2]\d|0[1-9]|[1-9]| [1-9])\.(?P<m>1[0-2]|0[1-9]|[1-9])\.(?P<Y>\d\d\d\d)\<close>
  and raises \<open>ValueError\<close> when there is no match ("time data ... does not match
  format ...") or when text remains after the match ("unconverted data remains: ...").
  It then converts the three groups with \<open>int\<close> and builds the date, which raises
  \<open>ValueError\<close> for a day the month does not have and for the year 0.

  Every alternative of a group is followed by a literal dot, so at most one alternative
  of each group can take part in a match: the two-character ones need the dot in third
  place, the one-character one in second place.
\<close>

definition re_d2 :: "char \<Rightarrow> char \<Rightarrow> bool" where
  \<comment> \<open>the two-character alternatives of \<open>%d\<close>\<close>
  "re_d2 a b \<longleftrightarrow>
     (a = CHR ''3'' \<and> char_range (CHR ''0'') (CHR ''1'') b) \<or>
     (char_range (CHR ''1'') (CHR ''2'') a \<and> re_digit b) \<or>
     (a = CHR ''0'' \<and> char_range (CHR ''1'') (CHR ''9'') b) \<or>
     (a = CHR '' '' \<and> char_range (CHR ''1'') (CHR ''9'') b)"

definition re_m2 :: "char \<Rightarrow> char \<Rightarrow> bool" where
  \<comment> \<open>the two-character alternatives of \<open>%m\<close>\<close>
  "re_m2 a b \<longleftrightarrow>
     (a = CHR ''1'' \<and> char_range (CHR ''0'') (CHR ''2'') b) \<or>
     (a = CHR ''0'' \<and> char_range (CHR ''1'') (CHR ''9'') b)"

fun match_group :: "(char \<Rightarrow> char \<Rightarrow> bool) \<Rightarrow> string \<Rightarrow> (string \<times> string) option" where
  \<comment> \<open>a group and the dot after it: the group's text and the text after the dot\<close>
  "match_group two (a # b # c # s) =
     (if two a b \<and> c = CHR ''.'' then Some ([a, b], s)
      else if char_range (CHR ''1'') (CHR ''9'') a \<and> b = CHR ''.'' then Some ([a], c # s)
      else None)"
| "match_group two [a, b] =
     (if char_range (CHR ''1'') (CHR ''9'') a \<and> b = CHR ''.'' then Some ([a], []) else None)"
| "match_group two s = None"

fun match_year :: "string \<Rightarrow> (string \<times> string) option" where
  "match_year (a # b # c # d # s) =
     (if list_all re_digit [a, b, c, d] then Some ([a, b, c, d], s)
      else None)"
| "match_year s = None"

definition regex_match :: "string \<Rightarrow> (string \<times> string \<times> string \<times> string) option" where
  \<comment> \<open>the groups d, m and Y of a match, and the text left after it\<close>
  "regex_match s =
     (case match_group re_d2 s of
        None \<Rightarrow> None
      | Some (d, s1) \<Rightarrow>
          (case match_group re_m2 s1 of
             None \<Rightarrow> None
           | Some (m, s2) \<Rightarrow>
               (case match_year s2 of
                  None \<Rightarrow> None
                | Some (y, rest) \<Rightarrow> Some (d, m, y, rest))))"

definition int_of_str :: "string \<Rightarrow> nat" where
  \<comment> \<open>\<open>int(s)\<close> of a matched group: digits, after a space at most\<close>
  "int_of_str s = foldl (\<lambda>n c. 10 * n + digit_val c) 0 (dropWhile (\<lambda>c. c = CHR '' '') s)"

definition repr :: "string \<Rightarrow> string" where
  \<comment> \<open>\<open>repr(s)\<close> of a text with no quote, backslash or control character\<close>
  "repr s = [CHR 0x27] @ s @ [CHR 0x27]"

definition strptime :: "string \<Rightarrow> exn + date" where
  "strptime s =
     (case regex_match s of
        None \<Rightarrow>
          Inl (ValueError (''time data '' @ repr s @ '' does not match format '' @ repr ''%d.%m.%Y''))
      | Some (d, m, y, rest) \<Rightarrow>
          if rest \<noteq> [] then Inl (ValueError (''unconverted data remains: '' @ rest))
          else mk_date (int_of_str y) (int_of_str m) (int_of_str d))"

subsection \<open>Birthday\<close>

text \<open>
  \<open>Birthday(value)\<close> parses the text, raises \<open>ValueError\<close> for a date after
  \<open>date.today()\<close>, and stores the date. A \<open>ValueError\<close> raised in the body is caught:
  when its message contains "time data" it is replaced by the format message, otherwise
  it is raised again. The current date is an input of the model (\<open>today\<close>); a Birthday
  object is modelled by the date it stores.
\<close>

definition Birthday :: "date \<Rightarrow> string \<Rightarrow> exn + date" where
  "Birthday today v =
     (case (case strptime v of
              Inl e \<Rightarrow> Inl e
            | Inr date_obj \<Rightarrow>
                if date_lt today date_obj then Inl (ValueError ''Birthday cannot be in the future.'')
                else Inr date_obj) of
        Inl (ValueError msg) \<Rightarrow>
          if contains msg ''time data'' then Inl (ValueError ''Invalid date format. Use DD.MM.YYYY'')
          else Inl (ValueError msg)
      | Inl e \<Rightarrow> Inl e
      | Inr date_obj \<Rightarrow> Inr date_obj)"

section \<open>Contact records\<close>

text \<open>
  A \<open>Record\<close> object has a name, a list of Phone objects and an optional Birthday.
  A method that mutates the object is a function from the object to the pair of what
  the call produces (the exception raised, or its return value) and the object as the
  call leaves it.
\<close>

record record_t =
  name :: string
  phones :: "string list"
  birthday :: "date option"

definition Record :: "string \<Rightarrow> record_t" where
  "Record nm = \<lparr>name = nm, phones = [], birthday = None\<rparr>"

definition Record_add_birthday :: "date \<Rightarrow> string \<Rightarrow> record_t \<Rightarrow> (exn + unit) \<times> record_t" where
  "Record_add_birthday today birthday_date self =
     (case Birthday today birthday_date of
        Inl e \<Rightarrow> (Inl e, self)
      | Inr b \<Rightarrow> (Inr (), self\<lparr>birthday := Some b\<rparr>))"

definition Record_show_birthday :: "record_t \<Rightarrow> string" where
  "Record_show_birthday self =
     (case birthday self of Some b \<Rightarrow> strftime b | None \<Rightarrow> ''Not set'')"

definition Record_add_phone :: "string \<Rightarrow> record_t \<Rightarrow> (exn + unit) \<times> record_t" where
  "Record_add_phone phone_number self =
     (case Phone phone_number of
        Inl e \<Rightarrow> (Inl e, self)
      | Inr phone_obj \<Rightarrow> (Inr (), self\<lparr>phones := phones self @ [phone_obj]\<rparr>))"

definition Record_remove_phone :: "string \<Rightarrow> record_t \<Rightarrow> record_t" where
  \<comment> \<open>the first phone with that value is removed, if there is one\<close>
  "Record_remove_phone phone_number self = self\<lparr>phones := remove1 phone_number (phones self)\<rparr>"

fun first_index :: "string \<Rightarrow> string list \<Rightarrow> nat option" where
  \<comment> \<open>the search of the \<open>for\<close> loop: the place of the first phone with that value\<close>
  "first_index v [] = None"
| "first_index v (p # ps) =
     (if p = v then Some 0 else (case first_index v ps of None \<Rightarrow> None | Some i \<Rightarrow> Some (Suc i)))"

definition Record_edit_phone :: "string \<Rightarrow> string \<Rightarrow> record_t \<Rightarrow> (exn + unit) \<times> record_t" where
  \<comment> \<open>at the first match \<open>Phone(new_phone)\<close> is built, which may raise, and then stored
      in its place; with no match the loop ends and \<open>ValueError\<close> is raised\<close>
  "Record_edit_phone old_phone new_phone self =
     (case first_index old_phone (phones self) of
        Some i \<Rightarrow>
          (case Phone new_phone of
             Inl e \<Rightarrow> (Inl e, self)
           | Inr phone_obj \<Rightarrow> (Inr (), self\<lparr>phones := (phones self)[i := phone_obj]\<rparr>))
      | None \<Rightarrow> (Inl (ValueError ''Phone number not found.''), self))"

definition Record_find_phone :: "string \<Rightarrow> record_t \<Rightarrow> string option" where
  "Record_find_phone phone_number self = List.find (\<lambda>p. p = phone_number) (phones self)"

definition Record_str :: "record_t \<Rightarrow> string" where
  "Record_str self =
     (let phones_str = join ''; '' (phones self);
          birthday_str =
            (if birthday self \<noteq> None then '', birthday: '' @ Record_show_birthday self else [])
      in ''Contact name: '' @ name self @ '', phones: '' @ phones_str @ birthday_str)"

section \<open>The address book\<close>

text \<open>
  \<open>AddressBook\<close> is a dictionary from names to Record objects. Its iteration order is
  the order of insertion, so it is modelled as an association list: assigning to a key
  that is present replaces the value in place, assigning to a new key appends.
\<close>

type_synonym AddressBook = "(string \<times> record_t) list"

fun dict_set :: "string \<Rightarrow> 'v \<Rightarrow> (string \<times> 'v) list \<Rightarrow> (string \<times> 'v) list" where
  \<comment> \<open>\<open>data[key] = v\<close>\<close>
  "dict_set key v [] = [(key, v)]"
| "dict_set key v ((k, w) # kvs) = (if k = key then (key, v) # kvs else (k, w) # dict_set key v kvs)"

definition AddressBook_add_record :: "record_t \<Rightarrow> AddressBook \<Rightarrow> AddressBook" where
  "AddressBook_add_record record book = dict_set (name record) record book"

definition AddressBook_find :: "string \<Rightarrow> AddressBook \<Rightarrow> record_t option" where
  "AddressBook_find nm book = map_of book nm"

definition AddressBook_delete :: "string \<Rightarrow> AddressBook \<Rightarrow> AddressBook" where
  "AddressBook_delete nm book = filter (\<lambda>kv. fst kv \<noteq> nm) book"

fun upcoming_loop ::
  "date \<Rightarrow> record_t list \<Rightarrow> (string \<times> string) list \<Rightarrow> exn + (string \<times> string) list" where
  \<comment> \<open>the loop over the records; an entry of the result is the pair of its \<open>name\<close> and
      its \<open>congratulation_date\<close>\<close>
  "upcoming_loop today [] upcoming_birthdays = Inr upcoming_birthdays"
| "upcoming_loop today (record # records) upcoming_birthdays =
     (case birthday record of
        None \<Rightarrow> upcoming_loop today records upcoming_birthdays
      | Some b \<Rightarrow>
          (case replace_year b (year today) of
             Inl e \<Rightarrow> Inl e
           | Inr birthday_this_year \<Rightarrow>
               (case (if date_lt birthday_this_year today
                      then replace_year birthday_this_year (year today + 1)
                      else Inr birthday_this_year) of
                  Inl e \<Rightarrow> Inl e
                | Inr birthday_this_year' \<Rightarrow>
                    (let days_until_birthday = days_between birthday_this_year' today in
                     if 0 \<le> days_until_birthday \<and> days_until_birthday \<le> 7
                     then upcoming_loop today records
                            (upcoming_birthdays @ [(name record, strftime birthday_this_year')])
                     else upcoming_loop today records upcoming_birthdays))))"

definition AddressBook_get_upcoming_birthdays ::
  "date \<Rightarrow> AddressBook \<Rightarrow> exn + (string \<times> string) list" where
  "AddressBook_get_upcoming_birthdays today book = upcoming_loop today (map snd book) []"

definition AddressBook_str :: "AddressBook \<Rightarrow> string" where
  "AddressBook_str book =
     (if book = [] then ''Address book is empty.''
      else join [CHR 0x0A] (map (\<lambda>kv. Record_str (snd kv)) book))"

section \<open>Command handlers\<close>

text \<open>
  A handler is a function from the arguments and the book to the pair of what the call
  produces (an exception, or the returned message) and the book as the call leaves it.
  A Record found in the book is the stored object itself: a method called on it changes
  the book's entry (\<open>on_record\<close>).
\<close>

definition on_record ::
  "string \<Rightarrow> (record_t \<Rightarrow> (exn + 'a) \<times> record_t) \<Rightarrow> record_t \<Rightarrow> AddressBook
     \<Rightarrow> (exn + 'a) \<times> AddressBook" where
  "on_record key method record book =
     (case method record of (res, record') \<Rightarrow> (res, dict_set key record' book))"

definition returning :: "string \<Rightarrow> (exn + 'a) \<times> AddressBook \<Rightarrow> (exn + string) \<times> AddressBook" where
  \<comment> \<open>the statement after a call that did not raise: \<open>return message\<close>\<close>
  "returning message r =
     (case r of (Inl e, book) \<Rightarrow> (Inl e, book) | (Inr u, book) \<Rightarrow> (Inr message, book))"

definition input_error :: "(exn + string) \<times> 's \<Rightarrow> string \<times> 's" where
  \<comment> \<open>the decorator, applied to what the decorated function did\<close>
  "input_error r =
     (case r of
        (Inr message, s) \<Rightarrow> (message, s)
      | (Inl (ValueError msg), s) \<Rightarrow> (''Error: '' @ msg, s)
      | (Inl (KeyError msg), s) \<Rightarrow> (''Error: Contact not found.'', s)
      | (Inl (IndexError msg), s) \<Rightarrow> (''Error: Please provide all required arguments.'', s)
      | (Inl (OtherException msg), s) \<Rightarrow> (''Unexpected error: '' @ msg, s))"

definition add_contact_func :: "string list \<Rightarrow> AddressBook \<Rightarrow> (exn + string) \<times> AddressBook" where
  "add_contact_func args book =
     (if length args < 2 then (Inr ''Error: Please provide name and phone.'', book)
      else
        (let nm = args ! 0; phone = args ! 1;
             (record, book1, message) =
               (case AddressBook_find nm book of
                  None \<Rightarrow> (Record nm, AddressBook_add_record (Record nm) book, ''Contact added.'')
                | Some r \<Rightarrow> (r, book, ''Contact updated.''))
         in if phone \<noteq> [] then returning message (on_record nm (Record_add_phone phone) record book1)
            else (Inr message, book1)))"

definition change_contact_func :: "string list \<Rightarrow> AddressBook \<Rightarrow> (exn + string) \<times> AddressBook" where
  \<comment> \<open>unpacking more than three arguments into three names raises \<open>ValueError\<close>\<close>
  "change_contact_func args book =
     (if length args < 3 then (Inr ''Error: Please provide name, old phone and new phone.'', book)
      else if length args \<noteq> 3 then (Inl (ValueError ''too many values to unpack (expected 3)''), book)
      else
        (let nm = args ! 0; old_phone = args ! 1; new_phone = args ! 2 in
         case AddressBook_find nm book of
           Some record \<Rightarrow>
             returning ''Phone number updated.''
               (on_record nm (Record_edit_phone old_phone new_phone) record book)
         | None \<Rightarrow> (Inr ''Contact not found.'', book)))"

definition show_phone_func :: "string list \<Rightarrow> AddressBook \<Rightarrow> (exn + string) \<times> AddressBook" where
  "show_phone_func args book =
     (if length args < 1 then (Inr ''Error: Please provide name.'', book)
      else
        (let nm = args ! 0 in
         case AddressBook_find nm book of
           Some record \<Rightarrow>
             (let phones_str = join '', '' (phones record) in
              (Inr (if phones_str \<noteq> [] then nm @ '': '' @ phones_str else nm @ '': No phones''), book))
         | None \<Rightarrow> (Inr ''Contact not found.'', book)))"

definition show_all_func :: "AddressBook \<Rightarrow> (exn + string) \<times> AddressBook" where
  "show_all_func book =
     (if book = [] then (Inr ''No contacts found.'', book)
      else
        (Inr (strip (''All contacts:'' @ [CHR 0x0A] @
                concat (map (\<lambda>(i, record). str_nat i @ ''. '' @ Record_str record @ [CHR 0x0A])
                          (enumerate 1 (map snd book))))),
         book))"

definition add_birthday_func ::
  "date \<Rightarrow> string list \<Rightarrow> AddressBook \<Rightarrow> (exn + string) \<times> AddressBook" where
  "add_birthday_func today args book =
     (if length args < 2 then (Inr ''Error: Please provide name and birthday.'', book)
      else
        (let nm = args ! 0; birthday_text = args ! 1 in
         case AddressBook_find nm book of
           Some record \<Rightarrow>
             returning (''Birthday added for '' @ nm @ ''.'')
               (on_record nm (Record_add_birthday today birthday_text) record book)
         | None \<Rightarrow> (Inr ''Contact not found.'', book)))"

definition show_birthday_func :: "string list \<Rightarrow> AddressBook \<Rightarrow> (exn + string) \<times> AddressBook" where
  "show_birthday_func args book =
     (if length args < 1 then (Inr ''Error: Please provide name.'', book)
      else
        (let nm = args ! 0 in
         case AddressBook_find nm book of
           Some record \<Rightarrow> (Inr (nm @ [CHR 0x27] @ ''s birthday: '' @ Record_show_birthday record), book)
         | None \<Rightarrow> (Inr ''Contact not found.'', book)))"

definition birthdays_func ::
  "date \<Rightarrow> string list \<Rightarrow> AddressBook \<Rightarrow> (exn + string) \<times> AddressBook" where
  "birthdays_func today args book =
     (case AddressBook_get_upcoming_birthdays today book of
        Inl e \<Rightarrow> (Inl e, book)
      | Inr upcoming \<Rightarrow>
          if upcoming = [] then (Inr ''No upcoming birthdays in the next week.'', book)
          else
            (Inr (strip (''Upcoming birthdays this week:'' @ [CHR 0x0A] @
                    concat (map (\<lambda>(i, user). str_nat i @ ''. '' @ fst user @ '': '' @ snd user @ [CHR 0x0A])
                              (enumerate 1 upcoming)))),
             book))"

text \<open>The decorated handlers, as the main loop calls them.\<close>

definition add_contact :: "string list \<Rightarrow> AddressBook \<Rightarrow> string \<times> AddressBook" where
  "add_contact args book = input_error (add_contact_func args book)"

definition change_contact :: "string list \<Rightarrow> AddressBook \<Rightarrow> string \<times> AddressBook" where
  "change_contact args book = input_error (change_contact_func args book)"

definition show_phone :: "string list \<Rightarrow> AddressBook \<Rightarrow> string \<times> AddressBook" where
  "show_phone args book = input_error (show_phone_func args book)"

definition show_all :: "AddressBook \<Rightarrow> string \<times> AddressBook" where
  "show_all book = input_error (show_all_func book)"

definition add_birthday :: "date \<Rightarrow> string list \<Rightarrow> AddressBook \<Rightarrow> string \<times> AddressBook" where
  "add_birthday today args book = input_error (add_birthday_func today args book)"

definition show_birthday :: "string list \<Rightarrow> AddressBook \<Rightarrow> string \<times> AddressBook" where
  "show_birthday args book = input_error (show_birthday_func args book)"

definition birthdays :: "date \<Rightarrow> string list \<Rightarrow> AddressBook \<Rightarrow> string \<times> AddressBook" where
  "birthdays today args book = input_error (birthdays_func today args book)"

definition main_step :: "date \<Rightarrow> string \<Rightarrow> string list \<Rightarrow> AddressBook \<Rightarrow> string \<times> AddressBook" where
  \<comment> \<open>one turn of the main loop on a parsed line, the command word in lower case: the
      text printed and the book afterwards\<close>
  "main_step today command args book =
     (if command = ''close'' \<or> command = ''exit'' then (''Good bye!'', book)
      else if command = ''hello'' then (''How can I help you?'', book)
      else if command = ''add'' then add_contact args book
      else if command = ''change'' then change_contact args book
      else if command = ''phone'' then show_phone args book
      else if command = ''all'' then show_all book
      else if command = ''add-birthday'' then add_birthday today args book
      else if command = ''show-birthday'' then show_birthday args book
      else if command = ''birthdays'' then birthdays today args book
      else (''Invalid command.'', book))"

definition handler_table ::
  "date \<Rightarrow> ((string list \<Rightarrow> AddressBook \<Rightarrow> (exn + string) \<times> AddressBook) \<times>
            (string list \<Rightarrow> AddressBook \<Rightarrow> string \<times> AddressBook)) list" where
  \<comment> \<open>every function the decorator is applied to, with the handler it gives\<close>
  "handler_table today =
     [(add_contact_func, add_contact),
      (change_contact_func, change_contact),
      (show_phone_func, show_phone),
      (\<lambda>args. show_all_func, \<lambda>args. show_all),
      (add_birthday_func today, add_birthday today),
      (show_birthday_func, show_birthday),
      (birthdays_func today, birthdays today)]"

section \<open>Notions of the specification\<close>

subsection \<open>The occurrence of a birthday\<close>

text \<open>
  The specification's rule for upcoming birthdays: the occurrence of a birthday is its
  month and day in the year of the reference date, or in the next year when that is
  strictly before the reference date; a contact is listed when the occurrence is 0 to 7
  days after the reference date. The occurrence exists when both the date in this year
  and the occurrence are dates of the calendar.
\<close>

definition this_year :: "date \<Rightarrow> date \<Rightarrow> date" where
  "this_year today b = b\<lparr>year := year today\<rparr>"

definition occurrence :: "date \<Rightarrow> date \<Rightarrow> date" where
  "occurrence today b =
     (if date_lt (this_year today b) today then b\<lparr>year := year today + 1\<rparr> else this_year today b)"

definition occurrence_exists :: "date \<Rightarrow> date \<Rightarrow> bool" where
  "occurrence_exists today b \<longleftrightarrow> valid_date (this_year today b) \<and> valid_date (occurrence today b)"

definition days_until :: "date \<Rightarrow> date \<Rightarrow> int" where
  "days_until today b = days_between (occurrence today b) today"

definition in_window :: "date \<Rightarrow> date \<Rightarrow> bool" where
  "in_window today b \<longleftrightarrow> 0 \<le> days_until today b \<and> days_until today b \<le> 7"

definition upcoming_spec :: "date \<Rightarrow> AddressBook \<Rightarrow> (string \<times> string) list" where
  "upcoming_spec today book =
     List.map_filter
       (\<lambda>r. case birthday r of
              None \<Rightarrow> None
            | Some b \<Rightarrow> if in_window today b then Some (name r, strftime (occurrence today b)) else None)
       (map snd book)"

definition occurrences_exist :: "date \<Rightarrow> AddressBook \<Rightarrow> bool" where
  "occurrences_exist today book \<longleftrightarrow>
     list_all (\<lambda>kv. case birthday (snd kv) of None \<Rightarrow> True | Some b \<Rightarrow> occurrence_exists today b) book"

subsection \<open>The texts that name a date\<close>

text \<open>
  A date written as DD.MM.YYYY: day and month with two digits, the year with four.
\<close>

definition pad4 :: "nat \<Rightarrow> string" where
  "pad4 n = pad2 (n div 100) @ pad2 (n mod 100)"

definition dd_mm_yyyy :: "date \<Rightarrow> string" where
  "dd_mm_yyyy d = pad2 (day d) @ ''.'' @ pad2 (month d) @ ''.'' @ pad4 (year d)"

text \<open>
  The texts that name a given date for the parser. A day from 1 to 31 is written with
  two digits, or below 10 with one digit or with a space and one digit; a month from 1
  to 12 with two digits, or below 10 with one digit; a year below 10000 with exactly
  four digits. The digits are ASCII digits, but the second digit of the days 10 to 29
  and the digits of the year may be any decimal digits. The text of a date is the three
  parts with a dot between them and nothing else.
\<close>

definition is_digit_of :: "char \<Rightarrow> nat \<Rightarrow> bool" where
  "is_digit_of c n \<longleftrightarrow> re_digit c \<and> digit_val c = n"

definition day_text :: "string \<Rightarrow> nat \<Rightarrow> bool" where
  "day_text t n \<longleftrightarrow>
     1 \<le> n \<and> n \<le> 31 \<and>
     (case t of
        [a] \<Rightarrow> n < 10 \<and> a = digit_char n
      | [a, b] \<Rightarrow>
          (n < 10 \<and> (a = CHR '' '' \<or> a = CHR ''0'') \<and> b = digit_char n) \<or>
          (10 \<le> n \<and> a = digit_char (n div 10) \<and>
             (if n < 30 then is_digit_of b (n mod 10) else b = digit_char (n mod 10)))
      | _ \<Rightarrow> False)"

definition month_text :: "string \<Rightarrow> nat \<Rightarrow> bool" where
  "month_text t n \<longleftrightarrow>
     1 \<le> n \<and> n \<le> 12 \<and>
     (case t of
        [a] \<Rightarrow> n < 10 \<and> a = digit_char n
      | [a, b] \<Rightarrow> a = digit_char (n div 10) \<and> b = digit_char (n mod 10)
      | _ \<Rightarrow> False)"

definition year_text :: "string \<Rightarrow> nat \<Rightarrow> bool" where
  "year_text t n \<longleftrightarrow>
     n < 10000 \<and>
     (case t of
        [a, b, c, e] \<Rightarrow>
          is_digit_of a (n div 100 div 10) \<and> is_digit_of b (n div 100 mod 10) \<and>
          is_digit_of c (n mod 100 div 10) \<and> is_digit_of e (n mod 100 mod 10)
      | _ \<Rightarrow> False)"

definition names_date :: "string \<Rightarrow> date \<Rightarrow> bool" where
  "names_date s d \<longleftrightarrow>
     (\<exists>dt mt yt. s = dt @ ''.'' @ mt @ ''.'' @ yt \<and>
        day_text dt (day d) \<and> month_text mt (month d) \<and> year_text yt (year d))"

subsection \<open>Validated content and reachable states\<close>

definition phone_ok :: "string \<Rightarrow> bool" where
  "phone_ok p \<longleftrightarrow> isdigit p \<and> length p = 10"

definition record_ok :: "date \<Rightarrow> record_t \<Rightarrow> bool" where
  "record_ok today r \<longleftrightarrow>
     list_all phone_ok (phones r) \<and>
     (case birthday r of None \<Rightarrow> True | Some b \<Rightarrow> valid_date b \<and> date_le b today)"

definition book_ok :: "date \<Rightarrow> AddressBook \<Rightarrow> bool" where
  "book_ok today book \<longleftrightarrow> list_all (\<lambda>kv. record_ok today (snd kv)) book"

text \<open>
  The states that the operations reach. A state is a book together with the current
  date, which never goes back. A Record is changed by its methods, before it is added
  to a book or while it is stored in one; a book is changed by a turn of the main loop,
  by \<open>add_record\<close> and \<open>delete\<close>, and by a method called on a Record it stores.
\<close>

inductive record_step :: "date \<Rightarrow> record_t \<Rightarrow> record_t \<Rightarrow> bool" where
  step_add_phone: "record_step today r (snd (Record_add_phone p r))"
| step_remove_phone: "record_step today r (Record_remove_phone p r)"
| step_edit_phone: "record_step today r (snd (Record_edit_phone old_phone new_phone r))"
| step_add_birthday: "record_step today r (snd (Record_add_birthday today s r))"

inductive reachable_record :: "date \<Rightarrow> record_t \<Rightarrow> bool" where
  new_record: "reachable_record today (Record nm)"
| record_later: "reachable_record today r \<Longrightarrow> date_le today today' \<Longrightarrow> reachable_record today' r"
| record_method: "reachable_record today r \<Longrightarrow> record_step today r r' \<Longrightarrow> reachable_record today r'"

inductive reachable :: "date \<Rightarrow> AddressBook \<Rightarrow> bool" where
  empty_book: "reachable today []"
| later: "reachable today book \<Longrightarrow> date_le today today' \<Longrightarrow> reachable today' book"
| command: "reachable today book \<Longrightarrow> reachable today (snd (main_step today cmd args book))"
| add_record:
    "reachable today book \<Longrightarrow> reachable_record today r
       \<Longrightarrow> reachable today (AddressBook_add_record r book)"
| delete: "reachable today book \<Longrightarrow> reachable today (AddressBook_delete nm book)"
| stored_method:
    "reachable today book \<Longrightarrow> AddressBook_find nm book = Some r \<Longrightarrow> record_step today r r'
       \<Longrightarrow> reachable today (dict_set nm r' book)"

section \<open>Basic facts\<close>

lemma snd_input_error: "snd (input_error r) = snd r"
  by (cases r) (auto simp: input_error_def split: sum.splits exn.splits)

lemma snd_returning: "snd (returning m r) = snd r"
  by (cases r) (auto simp: returning_def split: sum.splits)



lemma dict_set_same: "map_of kvs key = Some v \<Longrightarrow> dict_set key v kvs = kvs"
  by (induction kvs) (auto split: if_splits)

lemma first_index_None: "first_index v ps = None \<longleftrightarrow> v \<notin> set ps"
  by (induction ps) (auto split: option.splits)

lemma first_index_Some:
  "first_index v ps = Some i \<Longrightarrow> i < length ps \<and> ps ! i = v \<and> v \<notin> set (take i ps)"
  by (induction ps arbitrary: i) (auto split: if_splits option.splits)

lemma find_eq: "List.find (\<lambda>p. p = v) ps = (if v \<in> set ps then Some v else None)"
  by (induction ps) auto

lemma first_index_unique:
  "first_index old ps = Some i \<Longrightarrow> count_list ps old = 1 \<Longrightarrow> new \<noteq> old
     \<Longrightarrow> old \<notin> set (ps[i := new])"
proof (induction ps arbitrary: i)
  case Nil
  then show ?case by simp
next
  case (Cons p ps)
  show ?case
  proof (cases "p = old")
    case True
    with Cons.prems have "i = 0" and "count_list ps old = 0" by auto
    then have "old \<notin> set ps" by (simp add: count_list_0_iff)
    with \<open>i = 0\<close> Cons.prems(3) show ?thesis by auto
  next
    case False
    with Cons.prems obtain j where j: "first_index old ps = Some j" "i = Suc j"
      by (auto split: option.splits)
    from False Cons.prems have "count_list ps old = 1" by simp
    from Cons.IH [OF j(1) this Cons.prems(3)] False j(2) show ?thesis by auto
  qed
qed

section \<open>Editing a phone\<close>

text \<open>
  Claim C3, as amended. On a Record whose phones contain \<open>old\<close>, \<open>edit_phone(old, new)\<close>
  with a valid \<open>new\<close> puts \<open>new\<close> in the place of the first phone equal to \<open>old\<close> and
  leaves the others as they are; afterwards \<open>find_phone(new)\<close> returns the phone, and
  \<open>find_phone(old)\<close> returns nothing when \<open>old\<close> was stored once and \<open>new\<close> differs
  from it. On a Record whose phones do not contain \<open>old\<close>, it raises
  \<open>ValueError("Phone number not found.")\<close> and leaves the Record as it was.
\<close>

theorem edit_phone_replaces_first:
  "(old \<in> set (phones r) \<and> isdigit new \<and> length new = 10 \<longrightarrow>
      (\<exists>i<length (phones r). phones r ! i = old \<and> old \<notin> set (take i (phones r)) \<and>
         Record_edit_phone old new r = (Inr (), r\<lparr>phones := (phones r)[i := new]\<rparr>)) \<and>
      Record_find_phone new (snd (Record_edit_phone old new r)) = Some new \<and>
      (count_list (phones r) old = 1 \<and> new \<noteq> old \<longrightarrow>
         Record_find_phone old (snd (Record_edit_phone old new r)) = None)) \<and>
   (old \<notin> set (phones r) \<longrightarrow>
      Record_edit_phone old new r = (Inl (ValueError ''Phone number not found.''), r))"
proof (intro conjI impI)
  assume "old \<notin> set (phones r)"
  then have "first_index old (phones r) = None" by (simp add: first_index_None)
  then show "Record_edit_phone old new r = (Inl (ValueError ''Phone number not found.''), r)"
    by (simp add: Record_edit_phone_def)
next
  assume a: "old \<in> set (phones r) \<and> isdigit new \<and> length new = 10"
  then have ph: "Phone new = Inr new" by (simp add: Phone_def)
  from a obtain i where i: "first_index old (phones r) = Some i"
    using first_index_None [of old "phones r"] by (cases "first_index old (phones r)") auto
  have e: "Record_edit_phone old new r = (Inr (), r\<lparr>phones := (phones r)[i := new]\<rparr>)"
    using i ph by (simp add: Record_edit_phone_def)
  from first_index_Some [OF i] e
  show "\<exists>i<length (phones r). phones r ! i = old \<and> old \<notin> set (take i (phones r)) \<and>
         Record_edit_phone old new r = (Inr (), r\<lparr>phones := (phones r)[i := new]\<rparr>)"
    by blast
  from first_index_Some [OF i] have "new \<in> set ((phones r)[i := new])"
    by (simp add: set_update_memI)
  then show "Record_find_phone new (snd (Record_edit_phone old new r)) = Some new"
    by (simp add: e Record_find_phone_def find_eq)
  assume "count_list (phones r) old = 1 \<and> new \<noteq> old"
  then have "old \<notin> set ((phones r)[i := new])"
    using first_index_unique [OF i] by blast
  then show "Record_find_phone old (snd (Record_edit_phone old new r)) = None"
    by (simp add: e Record_find_phone_def find_eq)
qed

theorem edit_phone_replaces_first_witness:
  "Record_edit_phone ''0123456789'' ''1112223334''
      \<lparr>name = ''alice'', phones = [''5556667778'', ''0123456789''], birthday = None\<rparr> =
     (Inr (), \<lparr>name = ''alice'', phones = [''5556667778'', ''1112223334''], birthday = None\<rparr>) \<and>
   Record_find_phone ''1112223334'' (snd (Record_edit_phone ''0123456789'' ''1112223334''
      \<lparr>name = ''alice'', phones = [''5556667778'', ''0123456789''], birthday = None\<rparr>)) =
     Some ''1112223334'' \<and>
   Record_find_phone ''0123456789'' (snd (Record_edit_phone ''0123456789'' ''1112223334''
      \<lparr>name = ''alice'', phones = [''5556667778'', ''0123456789''], birthday = None\<rparr>)) = None \<and>
   Record_edit_phone ''0123456789'' ''1112223334''
      \<lparr>name = ''bob'', phones = [''5556667778''], birthday = None\<rparr> =
     (Inl (ValueError ''Phone number not found.''),
      \<lparr>name = ''bob'', phones = [''5556667778''], birthday = None\<rparr>)"
proof -
  let ?a = "\<lparr>name = ''alice'', phones = [''5556667778'', ''0123456789''], birthday = None\<rparr>"
  let ?b = "\<lparr>name = ''bob'', phones = [''5556667778''], birthday = None\<rparr>"
  have d: "isdigit ''1112223334''"
    by (simp add: isdigit_def isdigit_char_def char_range_def)
  have 1: "Record_edit_phone ''0123456789'' ''1112223334'' ?a =
     (Inr (), \<lparr>name = ''alice'', phones = [''5556667778'', ''1112223334''], birthday = None\<rparr>)"
    using d by (simp add: Record_edit_phone_def Phone_def)
  from edit_phone_replaces_first [of "''0123456789''" ?a "''1112223334''"] d
  have "Record_find_phone ''1112223334'' (snd (Record_edit_phone ''0123456789'' ''1112223334'' ?a)) =
          Some ''1112223334'' \<and>
        Record_find_phone ''0123456789'' (snd (Record_edit_phone ''0123456789'' ''1112223334'' ?a)) =
          None"
    by simp
  moreover from edit_phone_replaces_first [of "''0123456789''" ?b "''1112223334''"]
  have "Record_edit_phone ''0123456789'' ''1112223334'' ?b =
     (Inl (ValueError ''Phone number not found.''), ?b)"
    by simp
  ultimately show ?thesis using 1 by simp
qed

text \<open>
  Phones are not kept distinct: after \<open>add\<close> with the same phone twice, editing that
  phone changes the first of the two and \<open>find_phone\<close> still finds the second.
\<close>

theorem edit_phone_duplicate_counterexample:
  "Record_find_phone ''0123456789''
     (snd (Record_edit_phone ''0123456789'' ''1112223334''
        \<lparr>name = ''alice'', phones = [''0123456789'', ''0123456789''], birthday = None\<rparr>)) =
   Some ''0123456789''"
  by (simp add: Record_find_phone_def Record_edit_phone_def Phone_def isdigit_def isdigit_char_def
      char_range_def)

section \<open>The add command\<close>



section \<open>Queries\<close>

text \<open>
  Claim C10. The handlers of \<open>phone\<close>, \<open>show-birthday\<close>, \<open>birthdays\<close> and \<open>all\<close> leave
  the book, with every Record in it, as it was, whatever the arguments and whether they
  return a result or an error message.
\<close>

theorem queries_leave_book_unchanged:
  "snd (show_phone args book) = book \<and> snd (show_birthday args book) = book \<and>
   snd (birthdays today args book) = book \<and> snd (show_all book) = book"
  by (simp add: show_phone_def show_birthday_def birthdays_def show_all_def snd_input_error
      show_phone_func_def show_birthday_func_def birthdays_func_def show_all_func_def Let_def
      split: option.splits sum.splits)

section \<open>Phone numbers\<close>

text \<open>
  Claim C4, as amended. Constructing a Phone from \<open>s\<close> succeeds exactly when \<open>s\<close> has
  10 characters and every one of them is a digit in the sense of \<open>str.isdigit\<close>: an
  ASCII digit, or another digit character such as the superscript two. On success the
  Phone holds \<open>s\<close> itself; for any other text the construction raises
  \<open>ValueError("Phone must be 10 digits.")\<close>.
\<close>

theorem Phone_accepts:
  "Phone s =
     (if length s = 10 \<and> list_all isdigit_char s then Inr s
      else Inl (ValueError ''Phone must be 10 digits.'')) \<and>
   (list_all (char_range (CHR ''0'') (CHR ''9'')) s \<longrightarrow> list_all isdigit_char s)"
  by (auto simp: Phone_def isdigit_def isdigit_char_def list_all_iff)

theorem Phone_accepts_witness:
  "Phone ''0123456789'' = Inr ''0123456789'' \<and>
   Phone ''12345'' = Inl (ValueError ''Phone must be 10 digits.'') \<and>
   Phone ''12345abcde'' = Inl (ValueError ''Phone must be 10 digits.'')"
proof -
  have "list_all isdigit_char ''0123456789''" "\<not> list_all isdigit_char ''12345abcde''"
    by (simp_all add: isdigit_char_def char_range_def)
  with Phone_accepts [of "''0123456789''"] Phone_accepts [of "''12345''"]
    Phone_accepts [of "''12345abcde''"]
  show ?thesis by simp
qed

text \<open>
  A text of ten superscript twos (U+00B2) has no ASCII digit and is accepted.
\<close>

theorem Phone_superscript_counterexample:
  "Phone [CHR 0xB2, CHR 0xB2, CHR 0xB2, CHR 0xB2, CHR 0xB2, CHR 0xB2, CHR 0xB2, CHR 0xB2,
          CHR 0xB2, CHR 0xB2] =
     Inr [CHR 0xB2, CHR 0xB2, CHR 0xB2, CHR 0xB2, CHR 0xB2, CHR 0xB2, CHR 0xB2, CHR 0xB2,
          CHR 0xB2, CHR 0xB2] \<and>
   \<not> char_range (CHR ''0'') (CHR ''9'') (CHR 0xB2)"
  by (simp add: Phone_def isdigit_def isdigit_char_def char_range_def)

section \<open>Failures at the command boundary\<close>

lemma mk_date_raises: "mk_date y m d = Inl e \<Longrightarrow> \<exists>msg. e = ValueError msg"
  by (auto simp: mk_date_def split: if_splits)

lemma strptime_raises: "strptime s = Inl e \<Longrightarrow> \<exists>msg. e = ValueError msg"
  by (auto simp: strptime_def split: option.splits if_splits dest: mk_date_raises)

lemma Birthday_raises: "Birthday today s = Inl e \<Longrightarrow> \<exists>msg. e = ValueError msg"
  by (auto simp: Birthday_def split: sum.splits exn.splits if_splits dest: strptime_raises)

lemma Phone_raises: "Phone s = Inl e \<Longrightarrow> e = ValueError ''Phone must be 10 digits.''"
  by (auto simp: Phone_def split: if_splits)

lemma upcoming_loop_raises:
  "upcoming_loop today rs acc = Inl e \<Longrightarrow> \<exists>msg. e = ValueError msg"
proof (induction rs arbitrary: acc)
  case Nil
  then show ?case by simp
next
  case (Cons r rs)
  then show ?case
    by (auto simp: replace_year_def Let_def split: option.splits sum.splits if_splits
        dest: mk_date_raises)
qed

lemma handlers_raise_ValueError:
  assumes "(f, h) \<in> set (handler_table today)" and "f args book = (Inl e, b)"
  shows "\<exists>msg. e = ValueError msg"
proof -
  from assms(1) consider
      "f = add_contact_func" | "f = change_contact_func" | "f = show_phone_func"
    | "f = (\<lambda>args. show_all_func)" | "f = add_birthday_func today" | "f = show_birthday_func"
    | "f = birthdays_func today"
    by (auto simp: handler_table_def)
  then show ?thesis
  proof cases
    case 1
    with assms(2) show ?thesis
      by (auto simp: add_contact_func_def Let_def returning_def on_record_def Record_add_phone_def
          split: if_splits option.splits sum.splits prod.splits dest: Phone_raises)
  next
    case 2
    with assms(2) show ?thesis
      by (auto simp: change_contact_func_def Let_def returning_def on_record_def
          Record_edit_phone_def split: if_splits option.splits sum.splits prod.splits
          dest: Phone_raises)
  next
    case 3
    with assms(2) show ?thesis
      by (auto simp: show_phone_func_def Let_def split: if_splits option.splits)
  next
    case 4
    with assms(2) show ?thesis
      by (auto simp: show_all_func_def split: if_splits)
  next
    case 5
    with assms(2) show ?thesis
      by (auto simp: add_birthday_func_def Let_def returning_def on_record_def
          Record_add_birthday_def split: if_splits option.splits sum.splits prod.splits
          dest: Birthday_raises)
  next
    case 6
    with assms(2) show ?thesis
      by (auto simp: show_birthday_func_def Let_def split: if_splits option.splits)
  next
    case 7
    with assms(2) show ?thesis
      by (auto simp: birthdays_func_def AddressBook_get_upcoming_birthdays_def
          split: if_splits sum.splits dest: upcoming_loop_raises)
  qed
qed

text \<open>
  Claim C7. Whatever the decorated function does, the decorator returns a text line and
  raises nothing: a \<open>ValueError\<close> gives "Error: " and its message, a \<open>KeyError\<close>
  "Error: Contact not found.", an \<open>IndexError\<close> "Error: Please provide all required
  arguments.", any other exception "Unexpected error: " and its message, and a returned
  message is passed on; the book is left as the function left it. Each of the seven
  handlers is its function under the decorator. The handlers' functions raise nothing
  but \<open>ValueError\<close>, so a failure of a handler in fact gives "Error: " and its message.
\<close>

theorem failures_become_messages:
  "input_error (Inl (ValueError msg), s) = (''Error: '' @ msg, s) \<and>
   input_error (Inl (KeyError msg), s) = (''Error: Contact not found.'', s) \<and>
   input_error (Inl (IndexError msg), s) = (''Error: Please provide all required arguments.'', s) \<and>
   input_error (Inl (OtherException msg), s) = (''Unexpected error: '' @ msg, s) \<and>
   input_error (Inr message, s) = (message, s) \<and>
   ((f, h) \<in> set (handler_table today) \<longrightarrow>
      h args book = input_error (f args book) \<and>
      (\<forall>e b. f args book = (Inl e, b) \<longrightarrow>
         (\<exists>m. e = ValueError m \<and> h args book = (''Error: '' @ m, b))))"
proof (intro conjI impI)
  assume t: "(f, h) \<in> set (handler_table today)"
  then show h: "h args book = input_error (f args book)"
    by (auto simp: handler_table_def add_contact_def change_contact_def show_phone_def show_all_def
        add_birthday_def show_birthday_def birthdays_def)
  show "\<forall>e b. f args book = (Inl e, b) \<longrightarrow>
         (\<exists>m. e = ValueError m \<and> h args book = (''Error: '' @ m, b))"
  proof (intro allI impI)
    fix e b
    assume r: "f args book = (Inl e, b)"
    from handlers_raise_ValueError [OF t r] obtain m where "e = ValueError m" by blast
    with r h show "\<exists>m. e = ValueError m \<and> h args book = (''Error: '' @ m, b)"
      by (simp add: input_error_def)
  qed
qed (simp_all add: input_error_def)

theorem failures_become_messages_witness:
  "input_error (Inl (KeyError ''bob''), [(''alice'', Record ''alice'')]) =
     (''Error: Contact not found.'', [(''alice'', Record ''alice'')]) \<and>
   input_error (Inl (IndexError ''list index out of range''), [(''alice'', Record ''alice'')]) =
     (''Error: Please provide all required arguments.'', [(''alice'', Record ''alice'')]) \<and>
   input_error (Inl (OtherException ''boom''), [(''alice'', Record ''alice'')]) =
     (''Unexpected error: boom'', [(''alice'', Record ''alice'')]) \<and>
   (add_birthday_func \<lparr>year = 2024, month = 6, day = 10\<rparr>,
    add_birthday \<lparr>year = 2024, month = 6, day = 10\<rparr>)
     \<in> set (handler_table \<lparr>year = 2024, month = 6, day = 10\<rparr>) \<and>
   add_birthday \<lparr>year = 2024, month = 6, day = 10\<rparr> [''alice'', ''31.02.2024'']
     [(''alice'', \<lparr>name = ''alice'', phones = [],
                  birthday = Some \<lparr>year = 1990, month = 6, day = 15\<rparr>\<rparr>)] =
   (''Error: day is out of range for month'',
     [(''alice'', \<lparr>name = ''alice'', phones = [],
                  birthday = Some \<lparr>year = 1990, month = 6, day = 15\<rparr>\<rparr>)])"
proof -
  let ?t = "\<lparr>year = 2024, month = 6, day = 10\<rparr>"
  let ?b = "[(''alice'', \<lparr>name = ''alice'', phones = [],
                          birthday = Some \<lparr>year = 1990, month = 6, day = 15\<rparr>\<rparr>)]"
  have m: "(add_birthday_func ?t, add_birthday ?t) \<in> set (handler_table ?t)"
    by (simp add: handler_table_def)
  have f: "add_birthday_func ?t [''alice'', ''31.02.2024''] ?b =
             (Inl (ValueError ''day is out of range for month''), ?b)"
    by code_simp
  note T = failures_become_messages [where f = "add_birthday_func ?t" and h = "add_birthday ?t"
      and today = ?t and args = "[''alice'', ''31.02.2024'']" and book = ?b
      and s = "[(''alice'', Record ''alice'')]" and message = "[]"]
  have k: "input_error (Inl (KeyError x), [(''alice'', Record ''alice'')]) =
             (''Error: Contact not found.'', [(''alice'', Record ''alice'')])"
    and i: "input_error (Inl (IndexError x), [(''alice'', Record ''alice'')]) =
             (''Error: Please provide all required arguments.'', [(''alice'', Record ''alice'')])"
    and u: "input_error (Inl (OtherException x), [(''alice'', Record ''alice'')]) =
             (''Unexpected error: '' @ x, [(''alice'', Record ''alice'')])" for x
    using T [where msg = x] by blast+
  from T [where msg = "[]"] m
  have "\<forall>e b. add_birthday_func ?t [''alice'', ''31.02.2024''] ?b = (Inl e, b) \<longrightarrow>
         (\<exists>m. e = ValueError m \<and>
              add_birthday ?t [''alice'', ''31.02.2024''] ?b = (''Error: '' @ m, b))"
    by blast
  with f have "add_birthday ?t [''alice'', ''31.02.2024''] ?b =
                 (''Error: '' @ ''day is out of range for month'', ?b)"
    by auto
  with k [of "''bob''"] i [of "''list index out of range''"] u [of "''boom''"] m
  show ?thesis by simp
qed

section \<open>State after an error\<close>

text \<open>
  A handler whose function raises leaves the book as it was, unless it is \<open>add\<close> for
  a name the book does not have: \<open>change\<close>, \<open>add-birthday\<close> and \<open>add\<close> for a known
  name validate the value before anything is stored, and the other handlers store
  nothing.
\<close>

lemma error_keeps_book:
  assumes "(f, h) \<in> set (handler_table today)" and "f args book = (Inl e, b)"
    and "f = add_contact_func \<longrightarrow> AddressBook_find (args ! 0) book \<noteq> None"
  shows "b = book"
proof -
  from assms(1) consider
      "f = add_contact_func" | "f = change_contact_func" | "f = show_phone_func"
    | "f = (\<lambda>args. show_all_func)" | "f = add_birthday_func today" | "f = show_birthday_func"
    | "f = birthdays_func today"
    by (auto simp: handler_table_def)
  then show ?thesis
  proof cases
    case 1
    with assms(2,3) show ?thesis
      by (auto simp: add_contact_func_def Let_def returning_def on_record_def Record_add_phone_def
          AddressBook_find_def dict_set_same
          split: if_splits option.splits sum.splits prod.splits)
  next
    case 2
    with assms(2) show ?thesis
      by (auto simp: change_contact_func_def Let_def returning_def on_record_def
          Record_edit_phone_def AddressBook_find_def dict_set_same
          split: if_splits option.splits sum.splits prod.splits)
  next
    case 3
    with assms(2) show ?thesis
      by (auto simp: show_phone_func_def Let_def split: if_splits option.splits)
  next
    case 4
    with assms(2) show ?thesis
      by (auto simp: show_all_func_def split: if_splits)
  next
    case 5
    with assms(2) show ?thesis
      by (auto simp: add_birthday_func_def Let_def returning_def on_record_def
          Record_add_birthday_def AddressBook_find_def dict_set_same
          split: if_splits option.splits sum.splits prod.splits)
  next
    case 6
    with assms(2) show ?thesis
      by (auto simp: show_birthday_func_def Let_def split: if_splits option.splits)
  next
    case 7
    with assms(2) show ?thesis
      by (auto simp: birthdays_func_def split: if_splits sum.splits)
  qed
qed

text \<open>
  Claim C2 says that a command which ends in an error message leaves the book and
  every Record in it as they were. It fails for \<open>add\<close> with a new name and an invalid
  phone: the handler stores the new Record before \<open>add_phone\<close> validates the phone, so
  the command returns an error message and the book has gained a Record without
  phones.
\<close>

theorem add_contact_error_keeps_new_record:
  "add_contact [''bob'', ''123''] [] =
     (''Error: Phone must be 10 digits.'',
      [(''bob'', \<lparr>name = ''bob'', phones = [], birthday = None\<rparr>)])"
  by code_simp

section \<open>A birthday on the leap day\<close>

text \<open>
  Claim C8 says that listing the upcoming birthdays completes for a birthday on
  February 29 and a reference date in a year that is not a leap year. It does not:
  after \<open>add bob 0123456789\<close> and \<open>add-birthday bob 29.02.2000\<close>, on 10 June 2023,
  \<open>get_upcoming_birthdays\<close> raises \<open>ValueError\<close> when it moves the birthday into 2023,
  and the \<open>birthdays\<close> command prints the error for the whole book.
\<close>

theorem leap_day_birthday_raises:
  "snd (main_step \<lparr>year = 2023, month = 6, day = 10\<rparr> ''add-birthday'' [''bob'', ''29.02.2000'']
     (snd (main_step \<lparr>year = 2023, month = 6, day = 10\<rparr> ''add'' [''bob'', ''0123456789''] []))) =
     [(''bob'', \<lparr>name = ''bob'', phones = [''0123456789''],
                birthday = Some \<lparr>year = 2000, month = 2, day = 29\<rparr>\<rparr>)] \<and>
   AddressBook_get_upcoming_birthdays \<lparr>year = 2023, month = 6, day = 10\<rparr>
     [(''bob'', \<lparr>name = ''bob'', phones = [''0123456789''],
                birthday = Some \<lparr>year = 2000, month = 2, day = 29\<rparr>\<rparr>)] =
     Inl (ValueError ''day is out of range for month'') \<and>
   fst (main_step \<lparr>year = 2023, month = 6, day = 10\<rparr> ''birthdays'' []
     [(''bob'', \<lparr>name = ''bob'', phones = [''0123456789''],
                birthday = Some \<lparr>year = 2000, month = 2, day = 29\<rparr>\<rparr>)]) =
     ''Error: day is out of range for month''"
  by code_simp

section \<open>Stored values are validated\<close>

lemma date_le_trans: "date_le a b \<Longrightarrow> date_le b c \<Longrightarrow> date_le a c"
  by (auto simp: date_le_def date_lt_def)

lemma mk_date_valid: "mk_date y m d = Inr x \<Longrightarrow> valid_date x \<and> x = \<lparr>year = y, month = m, day = d\<rparr>"
  by (auto simp: mk_date_def valid_date_def split: if_splits)

lemma strptime_valid: "strptime s = Inr d \<Longrightarrow> valid_date d"
  by (auto simp: strptime_def split: option.splits if_splits dest: mk_date_valid)

lemma Birthday_Inr: "Birthday today s = Inr d \<longleftrightarrow> strptime s = Inr d \<and> date_le d today"
  by (auto simp: Birthday_def date_le_def split: sum.splits exn.splits if_splits)

lemma Birthday_valid: "Birthday today s = Inr d \<Longrightarrow> valid_date d \<and> date_le d today"
  by (auto simp: Birthday_Inr dest: strptime_valid)

lemma record_ok_later: "record_ok today r \<Longrightarrow> date_le today today' \<Longrightarrow> record_ok today' r"
  by (auto simp: record_ok_def split: option.splits intro: date_le_trans)

lemma book_ok_later: "book_ok today book \<Longrightarrow> date_le today today' \<Longrightarrow> book_ok today' book"
  by (auto simp: book_ok_def list_all_iff intro: record_ok_later)

lemma Phone_Inr: "Phone s = Inr p \<Longrightarrow> p = s \<and> phone_ok s"
  by (auto simp: Phone_def phone_ok_def split: if_splits)

lemma record_ok_Record: "record_ok today (Record nm)"
  by (simp add: record_ok_def Record_def)

lemma record_ok_add_phone: "record_ok today r \<Longrightarrow> record_ok today (snd (Record_add_phone p r))"
  by (auto simp: Record_add_phone_def record_ok_def split: sum.splits dest: Phone_Inr)

lemma record_ok_remove_phone: "record_ok today r \<Longrightarrow> record_ok today (Record_remove_phone p r)"
  by (auto simp: Record_remove_phone_def record_ok_def list_all_iff dest: notin_set_remove1)

lemma record_ok_edit_phone:
  "record_ok today r \<Longrightarrow> record_ok today (snd (Record_edit_phone old new r))"
  by (auto simp: Record_edit_phone_def record_ok_def list_all_iff
      split: option.splits sum.splits dest!: Phone_Inr set_update_subset_insert [THEN subsetD])

lemma record_ok_add_birthday:
  "record_ok today r \<Longrightarrow> record_ok today (snd (Record_add_birthday today s r))"
  by (auto simp: Record_add_birthday_def record_ok_def split: sum.splits dest: Birthday_valid)

lemma record_step_ok: "record_step today r r' \<Longrightarrow> record_ok today r \<Longrightarrow> record_ok today r'"
  by (induction rule: record_step.induct)
    (simp_all add: record_ok_add_phone record_ok_remove_phone record_ok_edit_phone
      record_ok_add_birthday)

lemma reachable_record_ok: "reachable_record today r \<Longrightarrow> record_ok today r"
  by (induction rule: reachable_record.induct)
    (auto intro: record_ok_Record record_ok_later record_step_ok)

lemma book_ok_dict_set: "book_ok today book \<Longrightarrow> record_ok today r \<Longrightarrow> book_ok today (dict_set k r book)"
  by (induction book) (auto simp: book_ok_def)

lemma book_ok_find: "book_ok today book \<Longrightarrow> AddressBook_find nm book = Some r \<Longrightarrow> record_ok today r"
proof -
  assume a: "book_ok today book" "AddressBook_find nm book = Some r"
  then have "(nm, r) \<in> set book" by (simp add: AddressBook_find_def map_of_SomeD)
  with a(1) show ?thesis by (fastforce simp: book_ok_def list_all_iff)
qed

lemma book_ok_on_record:
  "book_ok today book \<Longrightarrow> record_ok today (snd (m r)) \<Longrightarrow> book_ok today (snd (on_record k m r book))"
  by (simp add: on_record_def split_beta book_ok_dict_set)

lemma book_ok_add_contact: "book_ok today book \<Longrightarrow> book_ok today (snd (add_contact args book))"
proof -
  assume ok: "book_ok today book"
  show ?thesis
  proof (cases "AddressBook_find (args ! 0) book")
    case None
    have "book_ok today (AddressBook_add_record (Record (args ! 0)) book)"
      by (simp add: AddressBook_add_record_def book_ok_dict_set ok record_ok_Record)
    then show ?thesis using None
      by (simp add: add_contact_def snd_input_error add_contact_func_def Let_def snd_returning
          book_ok_on_record record_ok_add_phone record_ok_Record ok)
  next
    case (Some r)
    then have "record_ok today r" using ok by (rule book_ok_find [rotated])
    then show ?thesis using Some
      by (simp add: add_contact_def snd_input_error add_contact_func_def Let_def snd_returning
          book_ok_on_record record_ok_add_phone ok)
  qed
qed

lemma book_ok_change_contact: "book_ok today book \<Longrightarrow> book_ok today (snd (change_contact args book))"
proof -
  assume ok: "book_ok today book"
  show ?thesis
  proof (cases "AddressBook_find (args ! 0) book")
    case None
    then show ?thesis
      by (simp add: change_contact_def snd_input_error change_contact_func_def Let_def ok)
  next
    case (Some r)
    then have "record_ok today r" using ok by (rule book_ok_find [rotated])
    then show ?thesis using Some
      by (simp add: change_contact_def snd_input_error change_contact_func_def Let_def
          snd_returning book_ok_on_record record_ok_edit_phone ok)
  qed
qed

lemma book_ok_add_birthday:
  "book_ok today book \<Longrightarrow> book_ok today (snd (add_birthday today args book))"
proof -
  assume ok: "book_ok today book"
  show ?thesis
  proof (cases "AddressBook_find (args ! 0) book")
    case None
    then show ?thesis
      by (simp add: add_birthday_def snd_input_error add_birthday_func_def Let_def ok)
  next
    case (Some r)
    then have "record_ok today r" using ok by (rule book_ok_find [rotated])
    then show ?thesis using Some
      by (simp add: add_birthday_def snd_input_error add_birthday_func_def Let_def
          snd_returning book_ok_on_record record_ok_add_birthday ok)
  qed
qed

lemma book_ok_main_step:
  "book_ok today book \<Longrightarrow> book_ok today (snd (main_step today cmd args book))"
  using queries_leave_book_unchanged [of args book today]
  by (simp add: main_step_def book_ok_add_contact book_ok_change_contact book_ok_add_birthday)

lemma reachable_book_ok: "reachable today book \<Longrightarrow> book_ok today book"
proof (induction rule: reachable.induct)
  case (empty_book today)
  show ?case by (simp add: book_ok_def)
next
  case (later today book today')
  then show ?case by (simp add: book_ok_later)
next
  case (command today book cmd args)
  then show ?case by (simp add: book_ok_main_step)
next
  case (add_record today book r)
  from add_record.hyps(2) have "record_ok today r" by (rule reachable_record_ok)
  with add_record.IH show ?case by (simp add: AddressBook_add_record_def book_ok_dict_set)
next
  case (delete today book nm)
  then show ?case by (simp add: AddressBook_delete_def book_ok_def list_all_iff)
next
  case (stored_method today book nm r r')
  from stored_method.IH stored_method.hyps(2) have "record_ok today r" by (rule book_ok_find)
  with stored_method.hyps(3) have "record_ok today r'" by (rule record_step_ok)
  with stored_method.IH show ?case by (rule book_ok_dict_set)
qed

text \<open>
  Claim C9, as amended. In every state that the operations reach, every phone stored in
  a Record of the book has passed the check of \<open>Phone\<close>: it has 10 characters, each a
  digit in the sense of \<open>str.isdigit\<close>, which need not be an ASCII digit. Every stored
  birthday is a date of the calendar that is not after the current date, hence not
  after the date at which it was validated. No operation stores a value that failed
  validation.
\<close>

theorem stored_values_validated:
  assumes "reachable today book" and "(k, r) \<in> set book"
  shows "(\<forall>p\<in>set (phones r). isdigit p \<and> length p = 10) \<and>
         (\<forall>b. birthday r = Some b \<longrightarrow> valid_date b \<and> date_le b today)"
proof -
  from assms(1) have "book_ok today book" by (rule reachable_book_ok)
  with assms(2) have "record_ok today r" by (fastforce simp: book_ok_def list_all_iff)
  then show ?thesis by (auto simp: record_ok_def phone_ok_def list_all_iff)
qed

theorem stored_values_validated_witness:
  "reachable \<lparr>year = 2024, month = 6, day = 10\<rparr>
     [(''alice'', \<lparr>name = ''alice'', phones = [''0123456789''],
                  birthday = Some \<lparr>year = 1990, month = 6, day = 15\<rparr>\<rparr>)] \<and>
   isdigit ''0123456789'' \<and> length ''0123456789'' = 10 \<and>
   valid_date \<lparr>year = 1990, month = 6, day = 15\<rparr> \<and>
   date_le \<lparr>year = 1990, month = 6, day = 15\<rparr> \<lparr>year = 2024, month = 6, day = 10\<rparr>"
proof -
  let ?t = "\<lparr>year = 2024, month = 6, day = 10\<rparr>"
  let ?b1 = "[(''alice'', \<lparr>name = ''alice'', phones = [''0123456789''], birthday = None\<rparr>)]"
  let ?r = "\<lparr>name = ''alice'', phones = [''0123456789''],
             birthday = Some \<lparr>year = 1990, month = 6, day = 15\<rparr>\<rparr>"
  have s1: "snd (main_step ?t ''add'' [''alice'', ''0123456789''] []) = ?b1"
    by code_simp
  have s2: "snd (main_step ?t ''add-birthday'' [''alice'', ''15.06.1990''] ?b1) = [(''alice'', ?r)]"
    by code_simp
  have "reachable ?t ?b1"
    using reachable.command [OF reachable.empty_book, of ?t "''add''" "[''alice'', ''0123456789'']"]
    by (simp only: s1)
  then have r: "reachable ?t [(''alice'', ?r)]"
    using reachable.command [of ?t ?b1 "''add-birthday''" "[''alice'', ''15.06.1990'']"]
    by (simp only: s2)
  from stored_values_validated [OF r, of "''alice''" ?r] r show ?thesis by simp
qed

text \<open>
  The rule of ten ASCII digits does not hold in every reachable state: \<open>add\<close> with a
  phone of ten superscript twos (U+00B2) stores that phone.
\<close>

theorem stored_phone_not_ascii_counterexample:
  "reachable \<lparr>year = 2024, month = 6, day = 10\<rparr>
     [(''bob'', \<lparr>name = ''bob'',
                phones = [[CHR 0xB2, CHR 0xB2, CHR 0xB2, CHR 0xB2, CHR 0xB2, CHR 0xB2, CHR 0xB2,
                           CHR 0xB2, CHR 0xB2, CHR 0xB2]],
                birthday = None\<rparr>)] \<and>
   \<not> list_all (char_range (CHR ''0'') (CHR ''9''))
       [CHR 0xB2, CHR 0xB2, CHR 0xB2, CHR 0xB2, CHR 0xB2, CHR 0xB2, CHR 0xB2, CHR 0xB2, CHR 0xB2,
        CHR 0xB2]"
proof -
  let ?t = "\<lparr>year = 2024, month = 6, day = 10\<rparr>"
  let ?p = "[CHR 0xB2, CHR 0xB2, CHR 0xB2, CHR 0xB2, CHR 0xB2, CHR 0xB2, CHR 0xB2, CHR 0xB2, CHR 0xB2,
             CHR 0xB2]"
  have s: "snd (main_step ?t ''add'' [''bob'', ?p] []) =
             [(''bob'', \<lparr>name = ''bob'', phones = [?p], birthday = None\<rparr>)]"
    by code_simp
  have "reachable ?t [(''bob'', \<lparr>name = ''bob'', phones = [?p], birthday = None\<rparr>)]"
    using reachable.command [OF reachable.empty_book, of ?t "''add''" "[''bob'', ?p]"]
    by (simp only: s)
  then show ?thesis by (simp add: char_range_def)
qed

section \<open>Upcoming birthdays\<close>

lemma replace_year_valid:
  "valid_date (b\<lparr>year := y\<rparr>) \<Longrightarrow> replace_year b y = Inr (b\<lparr>year := y\<rparr>)"
  by (simp add: replace_year_def mk_date_def valid_date_def)

lemma upcoming_loop_spec:
  "list_all (\<lambda>r. case birthday r of None \<Rightarrow> True | Some b \<Rightarrow> occurrence_exists today b) rs
     \<Longrightarrow> upcoming_loop today rs acc =
         Inr (acc @ List.map_filter
           (\<lambda>r. case birthday r of
              None \<Rightarrow> None
            | Some b \<Rightarrow> if in_window today b then Some (name r, strftime (occurrence today b)) else None) rs)"
proof (induction rs arbitrary: acc)
  case Nil
  then show ?case by (simp add: map_filter_simps)
next
  case (Cons r rs)
  show ?case
  proof (cases "birthday r")
    case None
    with Cons show ?thesis by (simp add: map_filter_simps)
  next
    case (Some b)
    with Cons.prems have ex: "valid_date (this_year today b)" "valid_date (occurrence today b)"
      by (simp_all add: occurrence_exists_def)
    have 1: "replace_year b (year today) = Inr (this_year today b)"
      using ex(1) by (simp add: this_year_def replace_year_valid)
    have 2: "(if date_lt (this_year today b) today
              then replace_year (this_year today b) (year today + 1)
              else Inr (this_year today b)) = Inr (occurrence today b)"
      using ex(2) replace_year_valid [where b = "this_year today b" and y = "year today + 1"]
      by (cases "date_lt (this_year today b) today") (simp_all add: occurrence_def this_year_def)
    from Cons.prems have rest: "list_all (\<lambda>r. case birthday r of None \<Rightarrow> True | Some b \<Rightarrow> occurrence_exists today b) rs"
      by simp
    show ?thesis
      using Some 1 2 Cons.IH [OF rest]
      by (simp add: map_filter_simps in_window_def days_until_def Let_def)
  qed
qed

lemma get_upcoming_spec:
  "occurrences_exist today book \<Longrightarrow>
     AddressBook_get_upcoming_birthdays today book = Inr (upcoming_spec today book)"
  using upcoming_loop_spec [of today "map snd book" "[]"]
  by (simp add: AddressBook_get_upcoming_birthdays_def upcoming_spec_def occurrences_exist_def
      list_all_iff)

lemma set_map_filter: "set (List.map_filter f xs) = {y. \<exists>x\<in>set xs. f x = Some y}"
  by (induction xs) (auto simp: map_filter_simps split: option.splits)

lemma upcoming_spec_member:
  "(nm, txt) \<in> set (upcoming_spec today book) \<longleftrightarrow>
     (\<exists>k r b. (k, r) \<in> set book \<and> name r = nm \<and> birthday r = Some b \<and>
        0 \<le> days_until today b \<and> days_until today b \<le> 7 \<and> txt = strftime (occurrence today b))"
  (is "?l \<longleftrightarrow> ?r")
proof
  assume ?l
  then obtain kv where kv: "kv \<in> set book"
    and e: "(case birthday (snd kv) of None \<Rightarrow> None
             | Some b \<Rightarrow> if in_window today b
                 then Some (name (snd kv), strftime (occurrence today b)) else None) = Some (nm, txt)"
    by (auto simp: upcoming_spec_def set_map_filter)
  from e obtain b where "birthday (snd kv) = Some b" "in_window today b"
    "name (snd kv) = nm" "txt = strftime (occurrence today b)"
    by (auto split: option.splits if_splits)
  with kv show ?r
    by (intro exI [of _ "fst kv"] exI [of _ "snd kv"] exI [of _ b]) (simp add: in_window_def)
next
  assume ?r
  then obtain k r b where "(k, r) \<in> set book" "name r = nm" "birthday r = Some b"
    "in_window today b" "txt = strftime (occurrence today b)"
    by (auto simp: in_window_def)
  then show ?l
    by (auto simp: upcoming_spec_def set_map_filter intro!: bexI [of _ "(k, r)"])
qed

lemma occurrence_exists_plain:
  assumes "valid_date b" and "\<not> (month b = 2 \<and> day b = 29)"
    and "1 \<le> year today" and "year today < 9999"
  shows "occurrence_exists today b"
  using assms
  by (auto simp: occurrence_exists_def occurrence_def this_year_def valid_date_def
      days_in_month_def split: if_splits)

text \<open>
  Claim C1, as amended. For every book and every reference date such that the
  occurrence of every stored birthday exists (its month and day exist in the year of
  the reference date and, when it is rolled forward, in the next year, which is at most
  9999), \<open>get_upcoming_birthdays\<close> returns a list, in the order of the book, that
  includes a contact exactly when the contact has a birthday whose occurrence is 0 to 7
  days after the reference date, with the occurrence as its text. The occurrence exists
  for every valid birthday other than February 29 and every reference date before the
  year 9999 (\<open>occurrence_exists_plain\<close>).
\<close>

theorem upcoming_birthdays_window:
  assumes "occurrences_exist today book"
  shows "AddressBook_get_upcoming_birthdays today book = Inr (upcoming_spec today book) \<and>
         (\<forall>nm txt. (nm, txt) \<in> set (upcoming_spec today book) \<longleftrightarrow>
            (\<exists>k r b. (k, r) \<in> set book \<and> name r = nm \<and> birthday r = Some b \<and>
               0 \<le> days_until today b \<and> days_until today b \<le> 7 \<and>
               txt = strftime (occurrence today b)))"
  using get_upcoming_spec [OF assms] upcoming_spec_member [of _ _ today book] by blast

text \<open>
  With the reference date 10 June 2024, a contact born on 15 June 1990 is listed with
  the text "15.06.2024" and a contact born on 20 June 1990 is not.
\<close>

theorem upcoming_birthdays_window_witness:
  "occurrences_exist \<lparr>year = 2024, month = 6, day = 10\<rparr>
     [(''alice'', \<lparr>name = ''alice'', phones = [''0123456789''],
                  birthday = Some \<lparr>year = 1990, month = 6, day = 15\<rparr>\<rparr>),
      (''bob'', \<lparr>name = ''bob'', phones = [''1112223334''],
                birthday = Some \<lparr>year = 1990, month = 6, day = 20\<rparr>\<rparr>)] \<and>
   AddressBook_get_upcoming_birthdays \<lparr>year = 2024, month = 6, day = 10\<rparr>
     [(''alice'', \<lparr>name = ''alice'', phones = [''0123456789''],
                  birthday = Some \<lparr>year = 1990, month = 6, day = 15\<rparr>\<rparr>),
      (''bob'', \<lparr>name = ''bob'', phones = [''1112223334''],
                birthday = Some \<lparr>year = 1990, month = 6, day = 20\<rparr>\<rparr>)] =
     Inr [(''alice'', ''15.06.2024'')]"
proof -
  let ?t = "\<lparr>year = 2024, month = 6, day = 10\<rparr>"
  let ?b = "[(''alice'', \<lparr>name = ''alice'', phones = [''0123456789''],
                  birthday = Some \<lparr>year = 1990, month = 6, day = 15\<rparr>\<rparr>),
      (''bob'', \<lparr>name = ''bob'', phones = [''1112223334''],
                birthday = Some \<lparr>year = 1990, month = 6, day = 20\<rparr>\<rparr>)]"
  have h: "occurrences_exist ?t ?b"
    by (simp add: occurrences_exist_def occurrence_exists_def occurrence_def this_year_def
        date_lt_def valid_date_def days_in_month_def is_leap_def)
  have f: "strftime \<lparr>year = 2024, month = 6, day = 15\<rparr> = ''15.06.2024''"
    by code_simp
  have s: "upcoming_spec ?t ?b = [(''alice'', ''15.06.2024'')]"
    by (simp add: upcoming_spec_def map_filter_simps in_window_def days_until_def
        days_between_def toordinal_def days_before_year_def days_before_month_def occurrence_def
        this_year_def date_lt_def days_in_month_def is_leap_def f)
  from upcoming_birthdays_window [OF h] h s show ?thesis by simp
qed

text \<open>
  The list is not returned when an occurrence does not exist. On 10 June 9999, a
  birthday on 5 June is rolled forward into the year 10000, which \<open>date\<close> does not have:
  the call raises and the contact whose birthday is two days ahead is not listed. On
  10 June 2023, a birthday on February 29 has no date in 2023: the call raises and the
  contact whose birthday is five days ahead is not listed.
\<close>

theorem upcoming_birthdays_counterexample:
  "AddressBook_get_upcoming_birthdays \<lparr>year = 9999, month = 6, day = 10\<rparr>
     [(''alice'', \<lparr>name = ''alice'', phones = [''0123456789''],
                  birthday = Some \<lparr>year = 1990, month = 6, day = 12\<rparr>\<rparr>),
      (''bob'', \<lparr>name = ''bob'', phones = [''1112223334''],
                birthday = Some \<lparr>year = 1990, month = 6, day = 5\<rparr>\<rparr>)] =
     Inl (ValueError ''year 10000 is out of range'') \<and>
   days_until \<lparr>year = 9999, month = 6, day = 10\<rparr> \<lparr>year = 1990, month = 6, day = 12\<rparr> = 2 \<and>
   AddressBook_get_upcoming_birthdays \<lparr>year = 2023, month = 6, day = 10\<rparr>
     [(''alice'', \<lparr>name = ''alice'', phones = [''0123456789''],
                  birthday = Some \<lparr>year = 1990, month = 6, day = 15\<rparr>\<rparr>),
      (''carol'', \<lparr>name = ''carol'', phones = [''1112223334''],
                  birthday = Some \<lparr>year = 2000, month = 2, day = 29\<rparr>\<rparr>)] =
     Inl (ValueError ''day is out of range for month'') \<and>
   days_until \<lparr>year = 2023, month = 6, day = 10\<rparr> \<lparr>year = 1990, month = 6, day = 15\<rparr> = 5"
proof -
  have n: "str_nat 10000 = ''10000''"
    by (simp add: str_nat.simps) code_simp
  show ?thesis
    by (simp add: AddressBook_get_upcoming_birthdays_def replace_year_def mk_date_def Let_def n
        days_until_def days_between_def toordinal_def days_before_year_def days_before_month_def
        occurrence_def this_year_def date_lt_def days_in_month_def is_leap_def)
qed

section \<open>Birthdays\<close>

subsection \<open>Digits and their characters\<close>

lemma of_char_digit_char: "n < 10 \<Longrightarrow> (of_char (digit_char n) :: nat) = 48 + n"
  by (simp add: digit_char_def)

lemma char_eq_of_char: "c = c' \<longleftrightarrow> (of_char c :: nat) = of_char c'"
  by simp

lemma digit_char_digit_val:
  "re_digit c \<Longrightarrow> digit_char (digit_val c) = c \<and> digit_val c < 10"
  by (auto simp: re_digit_def char_range_def digit_val_def digit_char_def)

lemma digit_val_digit_char: "n < 10 \<Longrightarrow> digit_val (digit_char n) = n"
  by (simp add: digit_val_def of_char_digit_char)

lemma char_range_digit_char:
  "n < 10 \<Longrightarrow> char_range lo hi (digit_char n) \<longleftrightarrow> (of_char lo :: nat) \<le> 48 + n \<and> 48 + n \<le> (of_char hi :: nat)"
  by (simp add: char_range_def of_char_digit_char)

lemma re_digit_digit_char: "n < 10 \<Longrightarrow> re_digit (digit_char n)"
  by (simp add: re_digit_def char_range_digit_char)

lemma digit_char_eq: "n < 10 \<Longrightarrow> digit_char n = c \<longleftrightarrow> (of_char c :: nat) = 48 + n"
  by (subst char_eq_of_char) (simp only: of_char_digit_char, rule eq_commute)

lemma is_digit_of_iff: "n < 10 \<Longrightarrow> is_digit_of c n \<longleftrightarrow> c = digit_char n"
  using digit_char_digit_val [of c]
  by (auto simp: is_digit_of_def re_digit_digit_char digit_val_digit_char)

lemma two_digits: "n < 100 \<Longrightarrow> n div 10 < 10 \<and> n mod 10 < (10::nat) \<and> 10 * (n div 10) + n mod 10 = n"
  by presburger

lemma re_d2_digits:
  "i < 10 \<Longrightarrow> j < 10 \<Longrightarrow> re_d2 (digit_char i) (digit_char j) \<longleftrightarrow> 1 \<le> 10 * i + j \<and> 10 * i + j \<le> 31"
  by (simp add: re_d2_def re_digit_def char_range_digit_char digit_char_eq) arith

lemma re_m2_digits:
  "i < 10 \<Longrightarrow> j < 10 \<Longrightarrow> re_m2 (digit_char i) (digit_char j) \<longleftrightarrow> 1 \<le> 10 * i + j \<and> 10 * i + j \<le> 12"
  by (simp add: re_m2_def char_range_digit_char digit_char_eq) arith

lemma re_d2_dot: "\<not> re_d2 a (CHR ''.'')" "\<not> re_m2 a (CHR ''.'')"
  by (simp_all add: re_d2_def re_m2_def re_digit_def char_range_def)

lemma re_d2_space:
  "j < 10 \<Longrightarrow> re_d2 (CHR '' '') (digit_char j) \<longleftrightarrow> 1 \<le> j"
  by (auto simp: re_d2_def re_digit_def char_range_def of_char_digit_char)

lemma int_of_str_digits:
  "i < 10 \<Longrightarrow> j < 10 \<Longrightarrow> int_of_str [digit_char i, digit_char j] = 10 * i + j"
  "j < 10 \<Longrightarrow> int_of_str [digit_char j] = j"
  "j < 10 \<Longrightarrow> int_of_str [CHR '' '', digit_char j] = j"
  by (simp_all add: int_of_str_def digit_val_digit_char digit_char_eq)

lemma int_of_str_4:
  "a < 10 \<Longrightarrow> b < 10 \<Longrightarrow> c < 10 \<Longrightarrow> d < 10 \<Longrightarrow>
   int_of_str [digit_char a, digit_char b, digit_char c, digit_char d] = 1000 * a + 100 * b + 10 * c + d"
  by (simp add: int_of_str_def digit_val_digit_char digit_char_eq)

lemma digit_of_range:
  assumes "char_range lo hi c" and "(48::nat) \<le> of_char lo" and "(of_char hi :: nat) \<le> 57"
  shows "\<exists>j<10. c = digit_char j \<and> (of_char lo :: nat) \<le> 48 + j \<and> 48 + j \<le> (of_char hi :: nat)"
proof -
  from assms have r: "re_digit c"
    by (simp add: re_digit_def char_range_def)
  from digit_char_digit_val [OF r] have "digit_char (digit_val c) = c" "digit_val c < 10" by simp_all
  moreover from assms have "(of_char lo :: nat) \<le> 48 + digit_val c \<and> 48 + digit_val c \<le> (of_char hi :: nat)"
    by (simp add: char_range_def digit_val_def)
  ultimately show ?thesis by (intro exI [of _ "digit_val c"]) simp
qed

lemma digit_of_re_digit: "re_digit c \<Longrightarrow> \<exists>j<10. c = digit_char j"
  using digit_char_digit_val [of c] by (intro exI [of _ "digit_val c"]) simp

lemma split_hundreds: "n < 10000 \<Longrightarrow> n div 100 < (100::nat) \<and> n mod 100 < 100 \<and> n = 100 * (n div 100) + n mod 100"
  by simp

lemma hundreds: "r < 100 \<Longrightarrow> (100 * x + r) div 100 = (x::nat) \<and> (100 * x + r) mod 100 = r"
  by simp

lemma str_nat_digit: "d < 10 \<Longrightarrow> str_nat d = [digit_char d]"
  by (simp add: str_nat.simps)

lemma str_nat_step: "d < 10 \<Longrightarrow> 0 < m \<Longrightarrow> str_nat (10 * m + d) = str_nat m @ [digit_char d]"
  by (subst str_nat.simps) simp

lemma year_text_digits:
  "year_text t n \<longleftrightarrow>
     n < 10000 \<and> t = [digit_char (n div 100 div 10), digit_char (n div 100 mod 10),
                      digit_char (n mod 100 div 10), digit_char (n mod 100 mod 10)]"
proof (cases "n < 10000")
  case True
  from split_hundreds [OF True] two_digits [of "n div 100"] two_digits [of "n mod 100"]
  have b: "n div 100 div 10 < 10" "n div 100 mod 10 < 10" "n mod 100 div 10 < 10" "n mod 100 mod 10 < 10"
    by simp_all
  show ?thesis
    using True b by (auto simp: year_text_def is_digit_of_iff split: list.splits)
next
  case False
  then show ?thesis by (simp add: year_text_def)
qed

lemma match_month:
  assumes "month_text mt n"
  shows "match_group re_m2 (mt @ CHR ''.'' # rest) = Some (mt, rest) \<and> int_of_str mt = n"
proof -
  from assms have n: "1 \<le> n" "n \<le> 12" by (simp_all add: month_text_def)
  then have "n < 100" by simp
  from two_digits [OF this] have t: "n div 10 < 10" "n mod 10 < 10" "10 * (n div 10) + n mod 10 = n"
    by simp_all
  from assms consider
      (one) "n < 10" "mt = [digit_char n]"
    | (two) "mt = [digit_char (n div 10), digit_char (n mod 10)]"
    by (auto simp: month_text_def split: list.splits)
  then show ?thesis
  proof cases
    case one
    have "match_group re_m2 (digit_char n # CHR ''.'' # rest) = Some ([digit_char n], rest)"
      using one(1) n(1) by (cases rest) (simp_all add: char_range_digit_char re_d2_dot)
    with one show ?thesis by (simp add: int_of_str_digits)
  next
    case two
    with n t show ?thesis by (simp add: re_m2_digits int_of_str_digits)
  qed
qed

subsection \<open>What the parser accepts\<close>

lemma match_day:
  assumes "day_text dt n"
  shows "match_group re_d2 (dt @ CHR ''.'' # rest) = Some (dt, rest) \<and> int_of_str dt = n"
proof -
  from assms have n: "1 \<le> n" "n \<le> 31" by (simp_all add: day_text_def)
  then have "n < 100" by simp
  from two_digits [OF this] have t: "n div 10 < 10" "n mod 10 < 10" "10 * (n div 10) + n mod 10 = n"
    by simp_all
  have z: "CHR ''0'' = digit_char 0" by code_simp
  from assms t consider
      (one) "n < 10" "dt = [digit_char n]"
    | (sp) "n < 10" "dt = [CHR '' '', digit_char n]"
    | (zero) "n < 10" "dt = [digit_char 0, digit_char n]"
    | (two) "10 \<le> n" "dt = [digit_char (n div 10), digit_char (n mod 10)]"
    by (auto simp: day_text_def is_digit_of_iff z split: list.splits if_splits)
  then show ?thesis
  proof cases
    case one
    have "match_group re_d2 (digit_char n # CHR ''.'' # rest) = Some ([digit_char n], rest)"
      using one(1) n(1) by (cases rest) (simp_all add: char_range_digit_char re_d2_dot)
    with one show ?thesis by (simp add: int_of_str_digits)
  next
    case sp
    with n(1) show ?thesis by (simp add: re_d2_space int_of_str_digits)
  next
    case zero
    with n(1) show ?thesis by (simp add: re_d2_digits int_of_str_digits)
  next
    case two
    with n t show ?thesis by (simp add: re_d2_digits int_of_str_digits)
  qed
qed

lemma four_digits:
  assumes "(n::nat) < 10000"
  obtains a b c d where "a < 10" "b < 10" "c < 10" "d < 10"
    "n div 100 div 10 = a" "n div 100 mod 10 = b" "n mod 100 div 10 = c" "n mod 100 mod 10 = d"
    "n = 10 * (10 * (10 * a + b) + c) + d" "n = 1000 * a + 100 * b + 10 * c + d"
proof -
  from split_hundreds [OF assms] two_digits [of "n div 100"] two_digits [of "n mod 100"]
  have b: "n div 100 div 10 < 10" "n div 100 mod 10 < 10" "n mod 100 div 10 < 10" "n mod 100 mod 10 < 10"
    and e: "10 * (n div 100 div 10) + n div 100 mod 10 = n div 100"
      "10 * (n mod 100 div 10) + n mod 100 mod 10 = n mod 100" "n = 100 * (n div 100) + n mod 100"
    by simp_all
  define a where "a = n div 100 div 10"
  define b' where "b' = n div 100 mod 10"
  define c where "c = n mod 100 div 10"
  define d where "d = n mod 100 mod 10"
  have h: "n div 100 = 10 * a + b'" "n mod 100 = 10 * c + d"
    using e(1,2) unfolding a_def b'_def c_def d_def by simp_all
  have n: "n = 100 * (10 * a + b') + (10 * c + d)"
    using e(3) unfolding h .
  have l: "a < 10" "b' < 10" "c < 10" "d < 10" using b unfolding a_def b'_def c_def d_def by simp_all
  from n have "n = 10 * (10 * (10 * a + b') + c) + d" "n = 1000 * a + 100 * b' + 10 * c + d"
    by simp_all
  with l show thesis
    using that [of a b' c d] unfolding a_def b'_def c_def d_def by blast
qed

lemma match_year_text:
  assumes "year_text yt n"
  shows "match_year (yt @ rest) = Some (yt, rest) \<and> int_of_str yt = n"
proof -
  from assms have n: "n < 10000" by (simp add: year_text_def)
  from four_digits [OF n] obtain a b c d where l: "a < 10" "b < 10" "c < 10" "d < 10"
    and g: "n div 100 div 10 = a" "n div 100 mod 10 = b" "n mod 100 div 10 = c" "n mod 100 mod 10 = d"
    and v: "n = 1000 * a + 100 * b + 10 * c + d" by metis
  from assms have yt: "yt = [digit_char a, digit_char b, digit_char c, digit_char d]"
    unfolding year_text_digits g by simp
  have "int_of_str yt = n" using l by (simp add: yt int_of_str_4 v)
  moreover have "match_year (yt @ rest) = Some (yt, rest)"
    using l by (simp add: yt re_digit_digit_char)
  ultimately show ?thesis by simp
qed

lemma re_d2_inv:
  assumes "re_d2 a b"
  shows "day_text [a, b] (int_of_str [a, b])"
proof -
  have z: "CHR ''0'' = digit_char 0" by code_simp
  from assms consider
      (sp) "a = CHR '' ''" "char_range (CHR ''1'') (CHR ''9'') b"
    | (dg) "char_range (CHR ''0'') (CHR ''3'') a" "re_digit b"
    by (auto simp: re_d2_def re_digit_def char_range_def)
  then show ?thesis
  proof cases
    case sp
    from digit_of_range [OF sp(2)] obtain j where j: "j < 10" "b = digit_char j" "1 \<le> j"
      by auto
    then show ?thesis using sp(1)
      by (simp add: int_of_str_digits day_text_def)
  next
    case dg
    from digit_of_range [OF dg(1)] obtain i where i: "i < 10" "a = digit_char i" by auto
    from digit_of_re_digit [OF dg(2)] obtain j where j: "j < 10" "b = digit_char j" by auto
    from assms i j have r: "1 \<le> 10 * i + j" "10 * i + j \<le> 31" by (simp_all add: re_d2_digits)
    have dm: "(10 * i + j) div 10 = i" "(10 * i + j) mod 10 = j" using j(1) by simp_all
    show ?thesis
    proof (cases "i = 0")
      case True
      with i j r show ?thesis by (simp add: int_of_str_digits day_text_def z)
    next
      case False
      with i j r dm show ?thesis
        by (simp add: int_of_str_digits day_text_def is_digit_of_iff)
    qed
  qed
qed

lemma re_m2_inv:
  assumes "re_m2 a b"
  shows "month_text [a, b] (int_of_str [a, b])"
proof -
  from assms have dg: "char_range (CHR ''0'') (CHR ''1'') a" "re_digit b"
    by (auto simp: re_m2_def re_digit_def char_range_def)
  from digit_of_range [OF dg(1)] obtain i where i: "i < 10" "a = digit_char i" by auto
  from digit_of_re_digit [OF dg(2)] obtain j where j: "j < 10" "b = digit_char j" by auto
  from assms i j have r: "1 \<le> 10 * i + j" "10 * i + j \<le> 12" by (simp_all add: re_m2_digits)
  have dm: "(10 * i + j) div 10 = i" "(10 * i + j) mod 10 = j" using j(1) by simp_all
  from i j r dm show ?thesis by (simp add: int_of_str_digits month_text_def)
qed

lemma one_digit_inv:
  assumes "char_range (CHR ''1'') (CHR ''9'') a"
  shows "day_text [a] (int_of_str [a]) \<and> month_text [a] (int_of_str [a])"
proof -
  from digit_of_range [OF assms] obtain j where "j < 10" "a = digit_char j" "1 \<le> j" by auto
  then show ?thesis by (simp add: int_of_str_digits day_text_def month_text_def)
qed

lemma match_year_inv:
  assumes "match_year s = Some (y, rest)"
  shows "s = y @ rest \<and> year_text y (int_of_str y)"
proof -
  from assms obtain a b c d where s: "s = a # b # c # d # rest" "y = [a, b, c, d]"
    and r: "re_digit a" "re_digit b" "re_digit c" "re_digit d"
    by (induction s rule: match_year.induct) (auto split: if_splits)
  from digit_of_re_digit [OF r(1)] obtain i where i: "i < 10" "a = digit_char i" by auto
  from digit_of_re_digit [OF r(2)] obtain j where j: "j < 10" "b = digit_char j" by auto
  from digit_of_re_digit [OF r(3)] obtain k where k: "k < 10" "c = digit_char k" by auto
  from digit_of_re_digit [OF r(4)] obtain l where l: "l < 10" "d = digit_char l" by auto
  let ?n = "100 * (10 * i + j) + (10 * k + l)"
  have v: "int_of_str y = ?n"
    using s(2) i j k l by (simp add: int_of_str_4)
  have kl: "10 * k + l < 100" using k(1) l(1) by simp
  from hundreds [OF kl, of "10 * i + j"]
  have h: "?n div 100 = 10 * i + j" "?n mod 100 = 10 * k + l" by simp_all
  have dm: "(10 * i + j) div 10 = i" "(10 * i + j) mod 10 = j" "(10 * k + l) div 10 = k"
    "(10 * k + l) mod 10 = l"
    using j(1) l(1) by simp_all
  have "?n < 10000" using i(1) j(1) k(1) l(1) by simp
  then have "year_text y ?n"
    unfolding year_text_digits h dm using s(2) i j k l by simp
  with s v show ?thesis by simp
qed

lemma match_group_shape:
  assumes "match_group two s = Some (t, rest)"
  shows "s = t @ CHR ''.'' # rest \<and>
         ((\<exists>a b. t = [a, b] \<and> two a b) \<or> (\<exists>a. t = [a] \<and> char_range (CHR ''1'') (CHR ''9'') a))"
  using assms by (induction two s rule: match_group.induct) (auto split: if_splits)

lemma strptime_names:
  assumes "valid_date d" and "names_date s d"
  shows "strptime s = Inr d"
proof -
  from assms(2) obtain dt mt yt where s: "s = dt @ CHR ''.'' # mt @ CHR ''.'' # yt"
    and t: "day_text dt (day d)" "month_text mt (month d)" "year_text yt (year d)"
    by (auto simp: names_date_def)
  from match_day [OF t(1), of "mt @ CHR ''.'' # yt"] s
  have 1: "match_group re_d2 s = Some (dt, mt @ CHR ''.'' # yt)" "int_of_str dt = day d"
    by simp_all
  from match_month [OF t(2), of yt]
  have 2: "match_group re_m2 (mt @ CHR ''.'' # yt) = Some (mt, yt)" "int_of_str mt = month d"
    by simp_all
  from match_year_text [OF t(3), of "[]"]
  have 3: "match_year yt = Some (yt, [])" "int_of_str yt = year d"
    by simp_all
  have "regex_match s = Some (dt, mt, yt, [])"
    by (simp add: regex_match_def 1 2 3)
  then show ?thesis
    using assms(1) by (simp add: strptime_def 1 2 3 mk_date_def valid_date_def)
qed

lemma dd_mm_yyyy_names:
  assumes "valid_date d"
  shows "names_date (dd_mm_yyyy d) d"
proof -
  from assms have b: "1 \<le> day d" "day d \<le> 31" "1 \<le> month d" "month d \<le> 12" "year d < 10000"
    by (auto simp: valid_date_def days_in_month_def split: if_splits)
  have z: "CHR ''0'' = digit_char 0" by code_simp
  from b(2) have "day d < 100" by simp
  from two_digits [OF this] have dd: "day d div 10 < 10" "day d mod 10 < 10" by simp_all
  have 1: "day_text (pad2 (day d)) (day d)"
    using b(1,2) dd by (auto simp: day_text_def pad2_def is_digit_of_iff z)
  have 2: "month_text (pad2 (month d)) (month d)"
    using b(3,4) by (simp add: month_text_def pad2_def)
  have 3: "year_text (pad4 (year d)) (year d)"
    using b(5) by (simp add: year_text_digits pad4_def pad2_def)
  show ?thesis
    unfolding names_date_def dd_mm_yyyy_def using 1 2 3 by blast
qed

lemma str_nat_pad4:
  assumes "1000 \<le> n" and "n < 10000"
  shows "str_nat n = pad4 n"
proof -
  from four_digits [OF assms(2)] obtain a b c d where l: "a < 10" "b < 10" "c < 10" "d < 10"
    and g: "n div 100 div 10 = a" "n div 100 mod 10 = b" "n mod 100 div 10 = c" "n mod 100 mod 10 = d"
    and n: "n = 10 * (10 * (10 * a + b) + c) + d" by metis
  have a0: "0 < a"
  proof (rule ccontr)
    assume "\<not> 0 < a"
    then have "a = 0" by simp
    with n l have "n < 1000" by simp
    with assms(1) show False by simp
  qed
  have p1: "0 < 10 * a + b" and p2: "0 < 10 * (10 * a + b) + c" using a0 by simp_all
  have "str_nat (10 * (10 * (10 * a + b) + c) + d) = [digit_char a, digit_char b, digit_char c, digit_char d]"
    by (simp only: str_nat_step [OF l(4) p2] str_nat_step [OF l(3) p1] str_nat_step [OF l(2) a0]
        str_nat_digit [OF l(1)] append_Cons append_Nil)
  then have "str_nat n = [digit_char a, digit_char b, digit_char c, digit_char d]"
    by (simp only: n [symmetric])
  then show ?thesis
    unfolding pad4_def pad2_def g by simp
qed

lemma strptime_inv:
  assumes "strptime s = Inr d"
  shows "valid_date d \<and> names_date s d"
proof -
  from assms obtain dt mt y where rm: "regex_match s = Some (dt, mt, y, [])"
    and mk: "mk_date (int_of_str y) (int_of_str mt) (int_of_str dt) = Inr d"
    by (auto simp: strptime_def split: option.splits if_splits)
  from rm obtain s1 s2 where g: "match_group re_d2 s = Some (dt, s1)"
    "match_group re_m2 s1 = Some (mt, s2)" "match_year s2 = Some (y, [])"
    by (auto simp: regex_match_def split: option.splits)
  from mk_date_valid [OF mk] have v: "valid_date d"
    and d: "year d = int_of_str y" "month d = int_of_str mt" "day d = int_of_str dt"
    by auto
  from match_year_inv [OF g(3)] have y: "s2 = y" "year_text y (year d)" by (simp_all add: d)
  from match_group_shape [OF g(1)] have s: "s = dt @ CHR ''.'' # s1"
    and dt: "(\<exists>a b. dt = [a, b] \<and> re_d2 a b) \<or> (\<exists>a. dt = [a] \<and> char_range (CHR ''1'') (CHR ''9'') a)"
    by simp_all
  from match_group_shape [OF g(2)] have s1: "s1 = mt @ CHR ''.'' # s2"
    and mt: "(\<exists>a b. mt = [a, b] \<and> re_m2 a b) \<or> (\<exists>a. mt = [a] \<and> char_range (CHR ''1'') (CHR ''9'') a)"
    by simp_all
  from dt have df: "day_text dt (day d)"
    using re_d2_inv one_digit_inv by (auto simp: d)
  from mt have mf: "month_text mt (month d)"
    using re_m2_inv one_digit_inv by (auto simp: d)
  have "s = dt @ ''.'' @ mt @ ''.'' @ y"
    using s s1 y by simp
  with df mf y(2) have "names_date s d"
    unfolding names_date_def by blast
  with v show ?thesis by simp
qed

lemma Birthday_future:
  assumes "valid_date d" and "date_lt today d"
  shows "Birthday today (dd_mm_yyyy d) = Inl (ValueError ''Birthday cannot be in the future.'')"
proof -
  have "strptime (dd_mm_yyyy d) = Inr d"
    using assms(1) dd_mm_yyyy_names [OF assms(1)] by (rule strptime_names)
  then show ?thesis using assms(2) by (simp add: Birthday_def)
qed

lemma strftime_dd_mm_yyyy:
  assumes "valid_date d" and "1000 \<le> year d"
  shows "strftime d = dd_mm_yyyy d"
proof -
  from assms(1) have "year d < 10000" by (simp add: valid_date_def)
  with assms(2) show ?thesis by (simp add: strftime_def dd_mm_yyyy_def str_nat_pad4)
qed

text \<open>
  Claim C5, as amended. For every calendar date \<open>d\<close> not after the current date,
  constructing a Birthday from \<open>d\<close> written as DD.MM.YYYY succeeds and stores \<open>d\<close>, and
  \<open>show_birthday\<close> returns the same text when the year is 1000 or later. For every
  calendar date after the current date, the construction raises
  \<open>ValueError("Birthday cannot be in the future.")\<close>. A text is accepted exactly when it
  names a calendar date not after the current date: a day of two digits, or below 10 of
  one digit or of a space and one digit; a dot; a month of two digits, or below 10 of
  one digit; a dot; a year of exactly four decimal digits; and nothing else. For every
  other text the construction raises \<open>ValueError\<close>.
\<close>

theorem Birthday_accepts:
  "(valid_date d \<and> date_le d today \<longrightarrow>
      Birthday today (dd_mm_yyyy d) = Inr d \<and>
      Record_add_birthday today (dd_mm_yyyy d) r = (Inr (), r\<lparr>birthday := Some d\<rparr>) \<and>
      (1000 \<le> year d \<longrightarrow> Record_show_birthday (r\<lparr>birthday := Some d\<rparr>) = dd_mm_yyyy d)) \<and>
   (valid_date d \<and> date_lt today d \<longrightarrow>
      Birthday today (dd_mm_yyyy d) = Inl (ValueError ''Birthday cannot be in the future.'')) \<and>
   (Birthday today s = Inr d \<longleftrightarrow> valid_date d \<and> date_le d today \<and> names_date s d) \<and>
   ((\<exists>d'. Birthday today s = Inr d') \<or> (\<exists>msg. Birthday today s = Inl (ValueError msg)))"
proof (intro conjI impI)
  assume a: "valid_date d \<and> date_le d today"
  then have "strptime (dd_mm_yyyy d) = Inr d"
    using dd_mm_yyyy_names [of d] by (simp add: strptime_names)
  with a show b: "Birthday today (dd_mm_yyyy d) = Inr d"
    by (simp add: Birthday_Inr)
  then show "Record_add_birthday today (dd_mm_yyyy d) r = (Inr (), r\<lparr>birthday := Some d\<rparr>)"
    by (simp add: Record_add_birthday_def)
  assume "1000 \<le> year d"
  with a show "Record_show_birthday (r\<lparr>birthday := Some d\<rparr>) = dd_mm_yyyy d"
    by (simp add: Record_show_birthday_def strftime_dd_mm_yyyy)
next
  assume "valid_date d \<and> date_lt today d"
  then show "Birthday today (dd_mm_yyyy d) = Inl (ValueError ''Birthday cannot be in the future.'')"
    by (simp add: Birthday_future)
next
  show "Birthday today s = Inr d \<longleftrightarrow> valid_date d \<and> date_le d today \<and> names_date s d"
    using strptime_inv [of s d] strptime_names [of d s] by (auto simp: Birthday_Inr)
next
  show "(\<exists>d'. Birthday today s = Inr d') \<or> (\<exists>msg. Birthday today s = Inl (ValueError msg))"
    using Birthday_raises [of today s] by (cases "Birthday today s") auto
qed

theorem Birthday_accepts_witness:
  "Birthday \<lparr>year = 2024, month = 6, day = 10\<rparr> ''15.06.1990'' =
     Inr \<lparr>year = 1990, month = 6, day = 15\<rparr> \<and>
   Record_show_birthday (Record ''alice''\<lparr>birthday := Some \<lparr>year = 1990, month = 6, day = 15\<rparr>\<rparr>) =
     ''15.06.1990'' \<and>
   Birthday \<lparr>year = 2024, month = 6, day = 10\<rparr> ''11.06.2024'' =
     Inl (ValueError ''Birthday cannot be in the future.'')"
proof -
  let ?t = "\<lparr>year = 2024, month = 6, day = 10\<rparr>"
  let ?d = "\<lparr>year = 1990, month = 6, day = 15\<rparr>"
  let ?f = "\<lparr>year = 2024, month = 6, day = 11\<rparr>"
  have v: "valid_date ?d" "date_le ?d ?t" "valid_date ?f" "date_lt ?t ?f"
    by (simp_all add: valid_date_def days_in_month_def is_leap_def date_le_def date_lt_def)
  have s: "dd_mm_yyyy ?d = ''15.06.1990''" "dd_mm_yyyy ?f = ''11.06.2024''"
    by code_simp+
  from Birthday_accepts [of ?d ?t "Record ''alice''"] Birthday_accepts [of ?f ?t] v
  show ?thesis by (simp add: s)
qed

text \<open>
  The text "1.1.2000" has no two-digit day and no two-digit month, and is accepted.
  The birthday 01.01.0999 is accepted and stored, and \<open>show_birthday\<close> prints its year
  with three digits.
\<close>

theorem Birthday_short_form_counterexample:
  "Birthday \<lparr>year = 2024, month = 6, day = 10\<rparr> ''1.1.2000'' =
     Inr \<lparr>year = 2000, month = 1, day = 1\<rparr> \<and>
   dd_mm_yyyy \<lparr>year = 2000, month = 1, day = 1\<rparr> = ''01.01.2000'' \<and>
   Birthday \<lparr>year = 2024, month = 6, day = 10\<rparr> ''01.01.0999'' =
     Inr \<lparr>year = 999, month = 1, day = 1\<rparr> \<and>
   dd_mm_yyyy \<lparr>year = 999, month = 1, day = 1\<rparr> = ''01.01.0999'' \<and>
   Record_show_birthday (Record ''alice''\<lparr>birthday := Some \<lparr>year = 999, month = 1, day = 1\<rparr>\<rparr>) =
     ''01.01.999''"
  by code_simp

end
